theory Spec2Isabelle
  imports Main "HOL-Library.AList" "HOL-Library.Log_Nat"
begin

section \<open>The Python runtime the parser relies on\<close>

text \<open>
  The decoder \<^verbatim>\<open>parse_cdr_to_dict\<close> of \<^verbatim>\<open>Ribbon_SBC_CDR_parser.py\<close> is a pure
  function from one text line to a dictionary. It is built from a handful of string
  methods, \<^verbatim>\<open>int()\<close>, and three pieces of floating-point arithmetic. This section
  models those library operations; the following sections embed the functions of the
  module itself.

  A Python \<^verbatim>\<open>str\<close> is modelled as a \<^typ>\<open>string\<close>: a list of characters, each
  character one code point below 256 (the Latin-1 range of Unicode).
\<close>

subsection \<open>Strings\<close>

definition dquote :: char where
  "dquote = CHR 0x22"

definition squote :: char where
  "squote = CHR 0x27"

text \<open>
  \<^verbatim>\<open>str.strip()\<close> without an argument removes the characters for which
  \<^verbatim>\<open>str.isspace()\<close> holds. Below 256 these are the code points 9 to 13, 28 to 32,
  133 and 160.
\<close>

definition is_space :: "char \<Rightarrow> bool" where
  "is_space c =
     (let n = (of_char c :: nat) in
      (9 \<le> n \<and> n \<le> 13) \<or> (28 \<le> n \<and> n \<le> 32) \<or> n = 133 \<or> n = 160)"

definition py_strip :: "string \<Rightarrow> string" where
  "py_strip s = rev (dropWhile is_space (rev (dropWhile is_space s)))"

text \<open>
  \<^verbatim>\<open>s.split(c)\<close> for a one-character separator: the pieces between the
  occurrences of \<open>c\<close>; the result always has at least one element.
\<close>

fun py_split :: "char \<Rightarrow> string \<Rightarrow> string list" where
  "py_split c [] = [[]]"
| "py_split c (x # xs) =
     (if x = c then [] # py_split c xs
      else (case py_split c xs of [] \<Rightarrow> [[x]] | y # ys \<Rightarrow> (x # y) # ys))"

text \<open>\<^verbatim>\<open>sub in s\<close>: \<open>sub\<close> occurs in \<open>s\<close> as a contiguous substring.\<close>

fun starts_with :: "string \<Rightarrow> string \<Rightarrow> bool" where
  "starts_with [] s = True"
| "starts_with (p # ps) [] = False"
| "starts_with (p # ps) (x # xs) = (p = x \<and> starts_with ps xs)"

fun py_contains :: "string \<Rightarrow> string \<Rightarrow> bool" where
  "py_contains sub [] = (sub = [])"
| "py_contains sub (x # xs) = (starts_with sub (x # xs) \<or> py_contains sub xs)"

text \<open>
  \<^verbatim>\<open>str.lower()\<close>: below 256 only the letters A to Z and the accented capitals
  192 to 222 (without the multiplication sign 215) have a lower-case form, 32 above.
\<close>

definition lower_char :: "char \<Rightarrow> char" where
  "lower_char c =
     (let n = (of_char c :: nat) in
      if (65 \<le> n \<and> n \<le> 90) \<or> (192 \<le> n \<and> n \<le> 222 \<and> n \<noteq> 215)
      then char_of (n + 32) else c)"

definition py_lower :: "string \<Rightarrow> string" where
  "py_lower s = map lower_char s"

text \<open>
  \<^verbatim>\<open>re.sub(r'"[^"]*"', '', s)\<close>: scanning from the left, a double quote that is
  followed by another double quote is deleted together with everything up to and
  including that next quote; a double quote with no later partner matches nothing, and
  since no quote follows it the rest of the line is kept as it is.
\<close>

function re_sub_quoted :: "string \<Rightarrow> string" where
  "re_sub_quoted [] = []"
| "re_sub_quoted (x # xs) =
     (if x = dquote then
        (if dquote \<in> set xs then re_sub_quoted (tl (dropWhile (\<lambda>c. c \<noteq> dquote) xs))
         else x # xs)
      else x # re_sub_quoted xs)"
  by pat_completeness auto
termination
  by (relation "measure length")
     (auto simp: less_Suc_eq_le intro: le_trans [OF diff_le_self length_dropWhile_le])

subsection \<open>Integers\<close>

text \<open>
  \<^verbatim>\<open>int(s)\<close> for a string: surrounding white space is skipped (for \<^verbatim>\<open>int\<close> the
  code points 9 to 13, 32, 133 and 160), one sign is allowed, and the rest must be
  groups of decimal digits separated by single underscores, with no more than 4300
  digits in all (the default limit of the interpreter on the conversion of a string to
  an integer). Anything else raises \<^verbatim>\<open>ValueError\<close>, modelled as \<open>None\<close>.
\<close>

definition is_digit :: "char \<Rightarrow> bool" where
  "is_digit c = (let n = (of_char c :: nat) in 48 \<le> n \<and> n \<le> 57)"

definition digit_val :: "char \<Rightarrow> int" where
  "digit_val c = int (of_char c) - 48"

definition is_int_space :: "char \<Rightarrow> bool" where
  "is_int_space c =
     (let n = (of_char c :: nat) in (9 \<le> n \<and> n \<le> 13) \<or> n = 32 \<or> n = 133 \<or> n = 160)"

definition digits_value :: "string \<Rightarrow> int" where
  "digits_value ds = foldl (\<lambda>acc c. 10 * acc + digit_val c) 0 ds"

definition parse_digits :: "string \<Rightarrow> int option" where
  "parse_digits body =
     (let groups = py_split (CHR ''_'') body in
      if list_all (\<lambda>g. g \<noteq> [] \<and> list_all is_digit g) groups \<and>
         length (concat groups) \<le> 4300
      then Some (digits_value (concat groups)) else None)"

definition py_int :: "string \<Rightarrow> int option" where
  "py_int s =
     (let t = rev (dropWhile is_int_space (rev (dropWhile is_int_space s))) in
      case t of
        [] \<Rightarrow> None
      | c # rest \<Rightarrow>
          if c = CHR ''-'' then map_option uminus (parse_digits rest)
          else if c = CHR ''+'' then parse_digits rest
          else parse_digits t)"

text \<open>\<^verbatim>\<open>str(i)\<close> for an integer: its decimal digits, with a minus sign when negative.\<close>

fun nat_digits :: "nat \<Rightarrow> string" where
  "nat_digits n =
     (if n < 10 then [char_of (48 + n)]
      else nat_digits (n div 10) @ [char_of (48 + n mod 10)])"

definition py_str_int :: "int \<Rightarrow> string" where
  "py_str_int i = (if i < 0 then CHR ''-'' # nat_digits (nat (- i)) else nat_digits (nat i))"

subsection \<open>Floating point\<close>

text \<open>
  A Python \<^verbatim>\<open>float\<close> is an IEEE 754 double. A finite double is modelled by the
  rational number it denotes (signed zeros are not distinguished; the decoder never
  produces a negative zero). \<open>dbl_round\<close> rounds a rational to the nearest double,
  ties to the even significand, with 53 significant bits and the subnormal spacing
  \<open>2 powi (- 1074)\<close> at the bottom of the range.
\<close>

datatype pyfloat = Finite rat | PosInf | NegInf

definition round_half_even :: "rat \<Rightarrow> int" where
  "round_half_even q =
     (let f = \<lfloor>q\<rfloor>; r = q - of_int f in
      if r < 1 / 2 then f else if 1 / 2 < r then f + 1 else if even f then f else f + 1)"

text \<open>For \<open>q > 0\<close>, the exponent \<open>e\<close> with \<open>2 powi e \<le> q < 2 powi (e + 1)\<close>.\<close>

definition floor_log2 :: "rat \<Rightarrow> int" where
  "floor_log2 q =
     (let (a, b) = quotient_of q; d = bitlen a - bitlen b in
      if 2 powi d \<le> q then d else d - 1)"

definition dbl_round :: "rat \<Rightarrow> rat" where
  "dbl_round q =
     (if q = 0 then 0
      else let u = max (floor_log2 \<bar>q\<bar>) (- 1022) - 52
           in of_int (round_half_even (q / 2 powi u)) * 2 powi u)"

text \<open>
  The largest double is \<open>2 ^ 1024 - 2 ^ 971\<close>. A number of magnitude at least
  \<open>2 ^ 1024 - 2 ^ 970\<close>, half a spacing above it, rounds to \<open>2 ^ 1024\<close>, which is
  not a double: the operation overflows.
\<close>

definition dbl_overflows :: "rat \<Rightarrow> bool" where
  "dbl_overflows q = (2 ^ 1024 - 2 ^ 970 \<le> \<bar>q\<bar>)"

datatype error = OverflowError | ZeroDivisionError

text \<open>
  The conversion of an \<^verbatim>\<open>int\<close> operand in \<^verbatim>\<open>int * float\<close> raises
  \<^verbatim>\<open>OverflowError\<close> ("int too large to convert to float") on overflow.
\<close>

definition int_to_float :: "int \<Rightarrow> error + rat" where
  "int_to_float n =
     (if 2 ^ 1024 - 2 ^ 970 \<le> \<bar>n\<bar> then Inl OverflowError else Inr (dbl_round (of_int n)))"

text \<open>
  \<^verbatim>\<open>a / b\<close> on two \<^verbatim>\<open>int\<close>s is the correctly rounded quotient; it raises
  \<^verbatim>\<open>ZeroDivisionError\<close> for \<open>b = 0\<close> and \<^verbatim>\<open>OverflowError\<close> ("integer division
  result too large for a float") when the quotient overflows.
\<close>

definition true_div :: "int \<Rightarrow> int \<Rightarrow> error + rat" where
  "true_div a b =
     (if b = 0 then Inl ZeroDivisionError
      else if (2 ^ 1024 - 2 ^ 970) * \<bar>b\<bar> \<le> \<bar>a\<bar> then Inl OverflowError
      else Inr (dbl_round (of_int a / of_int b)))"

text \<open>\<^verbatim>\<open>x * y\<close> on two finite floats never raises: on overflow it is an infinity.\<close>

definition float_mul :: "rat \<Rightarrow> rat \<Rightarrow> pyfloat" where
  "float_mul x y =
     (if dbl_overflows (x * y) then (if 0 < x * y then PosInf else NegInf)
      else Finite (dbl_round (x * y)))"

text \<open>
  \<^verbatim>\<open>round(x, 2)\<close>: the exact value of \<open>x\<close> is rounded to two decimal places (ties
  to even) and the decimal result converted back to the nearest double.
\<close>

fun py_round2 :: "pyfloat \<Rightarrow> pyfloat" where
  "py_round2 (Finite x) = Finite (dbl_round (of_int (round_half_even (x * 100)) / 100))"
| "py_round2 PosInf = PosInf"
| "py_round2 NegInf = NegInf"

text \<open>The format specification \<^verbatim>\<open>.1f\<close>: one decimal place, ties to even.\<close>

fun format_1f :: "pyfloat \<Rightarrow> string" where
  "format_1f (Finite x) =
     (let m = round_half_even (\<bar>x\<bar> * 10) in
      (if x < 0 then ''-'' else '''') @ nat_digits (nat (m div 10)) @ ''.'' @
      nat_digits (nat (m mod 10)))"
| "format_1f PosInf = ''inf''"
| "format_1f NegInf = ''-inf''"

subsection \<open>\<^verbatim>\<open>repr\<close> of a list of strings\<close>

text \<open>
  An f-string field holding a list renders it with \<^verbatim>\<open>repr\<close>: the \<^verbatim>\<open>repr\<close> of each
  element, separated by a comma and a space, in square brackets. The \<^verbatim>\<open>repr\<close> of a
  string is quoted with single quotes, or with double quotes when it contains a single
  quote and no double quote; the quote character and the backslash are escaped, and so
  are the characters that are not printable.
\<close>

definition hex_digit :: "nat \<Rightarrow> char" where
  "hex_digit k = ''0123456789abcdef'' ! (k mod 16)"

definition repr_char :: "char \<Rightarrow> char \<Rightarrow> string" where
  "repr_char quote c =
     (let n = (of_char c :: nat) in
      if c = quote \<or> c = CHR 0x5C then [CHR 0x5C, c]
      else if n = 9 then [CHR 0x5C, CHR ''t'']
      else if n = 10 then [CHR 0x5C, CHR ''n'']
      else if n = 13 then [CHR 0x5C, CHR ''r'']
      else if n < 32 \<or> (127 \<le> n \<and> n \<le> 160) \<or> n = 173
        then [CHR 0x5C, CHR ''x'', hex_digit (n div 16), hex_digit n]
      else [c])"

definition py_repr_str :: "string \<Rightarrow> string" where
  "py_repr_str s =
     (let quote = (if squote \<in> set s \<and> dquote \<notin> set s then dquote else squote)
      in quote # concat (map (repr_char quote) s) @ [quote])"

fun join_comma :: "string list \<Rightarrow> string" where
  "join_comma [] = []"
| "join_comma [x] = x"
| "join_comma (x # y # ys) = x @ '', '' @ join_comma (y # ys)"

definition py_repr_list :: "string list \<Rightarrow> string" where
  "py_repr_list xs = ''['' @ join_comma (map py_repr_str xs) @ '']''"

section \<open>The data of the decoder\<close>

text \<open>
  The values stored in the result dictionary are strings, one list of strings (under
  \<^verbatim>\<open>calling_name\<close>) and one float (under \<^verbatim>\<open>duration\<close>). The dictionary itself is an
  association list in insertion order: assigning to a key that is present replaces its
  value in place, assigning to a new key appends it, as a Python \<^verbatim>\<open>dict\<close> does.
\<close>

datatype pyval = PStr string | PList "string list" | PFloat pyfloat

type_synonym pydict = "(string \<times> pyval) list"

definition set_item :: "pydict \<Rightarrow> string \<Rightarrow> pyval \<Rightarrow> pydict" where
  "set_item d k v = AList.update k v d"

definition dict_update :: "pydict \<Rightarrow> pydict \<Rightarrow> pydict" where
  "dict_update d other = foldl (\<lambda>acc (k, v). set_item acc k v) d other"

definition setdefault :: "pydict \<Rightarrow> string \<Rightarrow> pyval \<Rightarrow> pydict" where
  "setdefault d k v = (case map_of d k of None \<Rightarrow> set_item d k v | Some _ \<Rightarrow> d)"

text \<open>
  The two code tables the decoder reads live in the module \<^verbatim>\<open>cdr_field_mappings\<close>
  and are configuration data; the decoder is parameterised over them.
\<close>

record tables =
  cdr_disconnect_reason :: "string \<Rightarrow> string option"
  sip_cause_code_mapping :: "string \<Rightarrow> string option"

section \<open>The helper functions of the module\<close>

text \<open>
  \<^verbatim>\<open>safe_get(seq, idx, default)\<close>. The sequence is always a list and the index
  always an \<^verbatim>\<open>int\<close> at the call sites, so the branches for \<^verbatim>\<open>None\<close> and for a
  non-integer index are excluded by the types.
\<close>

definition safe_get :: "'a list \<Rightarrow> int \<Rightarrow> 'a \<Rightarrow> 'a" where
  "safe_get seq idx dflt =
     (if idx < 0 \<or> int (length seq) \<le> idx then dflt else seq ! nat idx)"

definition get_codec_value :: "string \<Rightarrow> string" where
  "get_codec_value codec =
     (if codec = ''P:4:0'' then ''G.729A''
      else if codec = ''P:2:1'' then ''G.711 w/ Silence Suppression''
      else if codec = ''P:1:1'' then ''G.711 u-law''
      else if codec = ''P:6:0'' then ''Fax Relay''
      else ''N/A'')"

definition extract_device_name_from_contact :: "string \<Rightarrow> string" where
  "extract_device_name_from_contact inv_contact_header =
     (if inv_contact_header = [] then ''N/A''
      else
        let h = py_strip inv_contact_header; hl = py_lower h in
        if list_ex (\<lambda>token. py_contains token hl) [''csf'', ''sep'', ''vms''] then
          (let parts = py_split (CHR ''='') h;
               want_index = (if py_contains ''transport'' hl then 2 else 1 :: nat)
           in if want_index < length parts \<and> py_strip (parts ! want_index) \<noteq> []
              then py_strip (parts ! want_index) else ''N/A'')
        else ''N/A'')"

text \<open>
  \<^verbatim>\<open>parse_prot_data_side(prot_data, side_prefix, contact_idx)\<close>: the call id, the
  status and, when the trace has at least 19 tokens, the device name of one leg.
\<close>

definition parse_prot_data_side :: "tables \<Rightarrow> string list \<Rightarrow> string \<Rightarrow> int \<Rightarrow> pydict" where
  "parse_prot_data_side T prot_data side_prefix contact_idx =
     (let out = [(side_prefix @ ''_call_id'', PStr ''N/A''),
                 (side_prefix @ ''_status'', PStr ''N/A'')]
      in
      if length prot_data < 19 then out
      else
        let call_id = py_strip (safe_get prot_data 1 '''');
            status_code = py_strip (safe_get prot_data 18 '''');
            out = (if call_id = [] then out
                   else set_item out (side_prefix @ ''_call_id'') (PStr call_id));
            sip_key = (if status_code = [] then ''sip_UNKNOWN'' else ''sip_'' @ status_code);
            sip_name =
              (if sip_key = ''sip_BYE'' then ''BYE''
               else (case sip_cause_code_mapping T sip_key of
                       Some name \<Rightarrow> name | None \<Rightarrow> ''Unknown Code''));
            code_display = (if status_code = [] then ''UNKNOWN'' else status_code);
            out = set_item out (side_prefix @ ''_status'')
                    (PStr (code_display @ '' ('' @ sip_name @ '')''));
            inv_contact_header = safe_get prot_data contact_idx '''';
            out_key_device =
              (if side_prefix = ''ingress'' then ''ing_device_name'' else ''egr_device_name'')
        in set_item out out_key_device
             (PStr (extract_device_name_from_contact inv_contact_header)))"

section \<open>The decoder \<^verbatim>\<open>parse_cdr_to_dict\<close>\<close>

subsection \<open>The three tokenizations of the line (lines 133 to 139)\<close>

definition cdr_fields_without_prot_data :: "string \<Rightarrow> string list" where
  "cdr_fields_without_prot_data raw_cdr =
     py_split (CHR '','') (py_strip (re_sub_quoted raw_cdr))"

definition fields_of :: "string \<Rightarrow> string list" where
  "fields_of raw_cdr = py_split (CHR '','') (py_strip raw_cdr)"

definition cdr_fields_parsed :: "string \<Rightarrow> string list" where
  "cdr_fields_parsed raw_cdr = py_split dquote (py_strip raw_cdr)"

subsection \<open>Recurring expressions of the body\<close>

text \<open>\<^verbatim>\<open>raw.split(",") if raw else []\<close>, as used for the two traces and the calling name.\<close>

definition split_or_empty :: "string \<Rightarrow> string list" where
  "split_or_empty raw = (if raw = [] then [] else py_split (CHR '','') raw)"

text \<open>The checker field of lines 141 to 148.\<close>

definition ingr_prot_data_ck :: "string list \<Rightarrow> string" where
  "ingr_prot_data_ck flds =
     (let cdr_type = safe_get flds 0 '''' in
      if cdr_type = ''ATTEMPT'' then safe_get flds 44 ''''
      else if cdr_type = ''STOP'' then safe_get flds 51 ''''
      else if cdr_type = ''START'' then safe_get flds 41 ''''
      else '''')"

text \<open>Line 151: the test on the checker field that decides whether an ingress trace is read.\<close>

definition ingress_present :: "string list \<Rightarrow> bool" where
  "ingress_present flds =
     (py_contains ''SIP'' (ingr_prot_data_ck flds) \<or>
      py_contains ''GSX2GSX'' (ingr_prot_data_ck flds))"

text \<open>Lines 151 to 160: the token lists of the ingress and of the egress trace.\<close>

definition ingr_prot_data :: "string list \<Rightarrow> string list \<Rightarrow> string list" where
  "ingr_prot_data flds parsed =
     (if ingress_present flds then split_or_empty (py_strip (safe_get parsed 1 ''''))
      else [])"

definition egr_raw :: "string list \<Rightarrow> string list \<Rightarrow> string" where
  "egr_raw flds parsed =
     (if ingress_present flds then py_strip (safe_get parsed 3 '''')
      else py_strip (safe_get parsed 1 ''''))"

text \<open>Lines 163 and 164: an egress trace none of whose tokens contains SIP is dropped.\<close>

definition discard_without_sip :: "string list \<Rightarrow> string list" where
  "discard_without_sip tokens = (if list_ex (py_contains ''SIP'') tokens then tokens else [])"

definition egr_prot_data :: "string list \<Rightarrow> string list \<Rightarrow> string list" where
  "egr_prot_data flds parsed = discard_without_sip (split_or_empty (egr_raw flds parsed))"

text \<open>Lines 167 and 168.\<close>

definition calling_name_of :: "string list \<Rightarrow> string list" where
  "calling_name_of parsed = split_or_empty (py_strip (safe_get parsed 5 ''''))"

text \<open>
  The disconnect reason (lines 189 to 192 and 285 to 288): the key \<^verbatim>\<open>DR<code>\<close>, or
  \<^verbatim>\<open>drUNKNOWN\<close> for a blank code, with its text from the table.
\<close>

definition disconnect_reason_text :: "tables \<Rightarrow> string \<Rightarrow> string" where
  "disconnect_reason_text T dr_code =
     (let disconnect_reason = (if dr_code = [] then ''drUNKNOWN'' else ''DR'' @ dr_code);
          disconnect_name =
            (case cdr_disconnect_reason T disconnect_reason of
               Some name \<Rightarrow> name | None \<Rightarrow> ''Unknown Code'')
      in disconnect_reason @ '' ('' @ disconnect_name @ '')'')"

text \<open>The calling number with its annotation (lines 199 to 201, 293 to 295, 407 to 409).\<close>

definition annotate_calling_number :: "string \<Rightarrow> string list \<Rightarrow> string" where
  "annotate_calling_number calling_number calling_name =
     (if calling_name = [] then calling_number
      else calling_number @ '' ('' @ py_repr_list calling_name @ '')'')"

text \<open>The route label (lines 208 to 212, 301 to 305, 418 to 422).\<close>

definition route_label_text :: "string \<Rightarrow> string" where
  "route_label_text route_label = (if route_label = [] then ''N/A (GW-GW call)'' else route_label)"

text \<open>The service provider (lines 195 and 196, 290 and 291, 403 and 404).\<close>

definition service_provider_text :: "string \<Rightarrow> string" where
  "service_provider_text service_provider =
     (if service_provider = [] then ''N/A'' else service_provider)"

text \<open>The disconnect initiator (lines 219 to 229 and 312 to 322).\<close>

definition disconnect_initiator_text :: "string \<Rightarrow> string" where
  "disconnect_initiator_text disconnect_initiator =
     (if disconnect_initiator = ''0'' then disconnect_initiator @ '' (Internal)''
      else if disconnect_initiator = ''1'' then disconnect_initiator @ '' (Calling Party)''
      else if disconnect_initiator = ''2'' then disconnect_initiator @ '' (Called Party)''
      else if disconnect_initiator = [] then ''N/A''
      else disconnect_initiator @ '' (Invalid value found)'')"

text \<open>
  An RTP address pair (lines 247 to 251 and their five repetitions): the two keys are
  assigned only when the raw value is not blank and contains a slash.
\<close>

definition set_rtp :: "pydict \<Rightarrow> string \<Rightarrow> string \<Rightarrow> string \<Rightarrow> pydict" where
  "set_rtp d rtp_ip_port local_key remote_key =
     (if rtp_ip_port = [] then d
      else if py_contains ''/'' rtp_ip_port then
        (let parts = py_split (CHR ''/'') (py_strip rtp_ip_port) in
         set_item (set_item d local_key (PStr (safe_get parts 0 '''')))
           remote_key (PStr (safe_get parts 1 '''')))
      else d)"

text \<open>
  The duration of a STOP record (lines 277 to 282). \<^verbatim>\<open>ValueError\<close> from \<^verbatim>\<open>int\<close>
  is caught and gives \<^verbatim>\<open>"N/A"\<close>; the except clause names \<^verbatim>\<open>TypeError\<close> and
  \<^verbatim>\<open>ValueError\<close> only, so the \<^verbatim>\<open>OverflowError\<close> of the multiplication leaves
  the function.
\<close>

definition duration_value :: "string \<Rightarrow> error + pyval" where
  "duration_value duration_raw =
     (case py_int duration_raw of
        None \<Rightarrow> Inr (PStr ''N/A'')
      | Some n \<Rightarrow>
          (case int_to_float n of
             Inl e \<Rightarrow> Inl e
           | Inr x \<Rightarrow> Inr (PFloat (py_round2 (float_mul x (dbl_round (1 / 100)))))))"

text \<open>
  The packets-lost value with its percentage (lines 351 to 365 and 381 to 395), from
  the raw received and lost counts just stored. \<^verbatim>\<open>ValueError\<close> from either
  \<^verbatim>\<open>int\<close> is caught and leaves the stored raw value; an \<^verbatim>\<open>OverflowError\<close> of the
  division is not caught.
\<close>

definition packets_lost_value :: "string \<Rightarrow> string \<Rightarrow> error + string" where
  "packets_lost_value rcvd_raw lost_raw =
     (case py_int rcvd_raw of
        None \<Rightarrow> Inr lost_raw
      | Some rcvd \<Rightarrow>
          (case py_int lost_raw of
             None \<Rightarrow> Inr lost_raw
           | Some lost \<Rightarrow>
               if 0 \<le> lost \<and> 0 < rcvd then
                 (case true_div lost rcvd of
                    Inl e \<Rightarrow> Inl e
                  | Inr q \<Rightarrow>
                      Inr (py_str_int lost @ '' ('' @ format_1f (float_mul q 100) @ ''%)''))
               else Inr (py_str_int lost)))"

subsection \<open>The three record types\<close>

text \<open>
  Each block is the body of one \<^verbatim>\<open>if cdr_type == ...\<close> of the source, its
  assignments in source order; \<open>no_prot\<close> is the token list
  \<^verbatim>\<open>cdr_fields_without_prot_data\<close>. Lines 184 to 270:
\<close>

definition attempt_block ::
  "tables \<Rightarrow> string list \<Rightarrow> string list \<Rightarrow> string list \<Rightarrow> pydict \<Rightarrow> pydict" where
  "attempt_block T no_prot flds calling_name d0 =
     (let d = dict_update d0
            [(''disconnect_time'', PStr (safe_get flds 9 '''')),
             (''duration'', PStr ''N/A''),
             (''disconnect_reason'', PStr (disconnect_reason_text T (safe_get flds 11 ''''))),
             (''service_provider'', PStr (service_provider_text (safe_get flds 14 ''''))),
             (''calling_number'',
                PStr (annotate_calling_number (safe_get flds 16 '''') calling_name)),
             (''called_number'', PStr (safe_get flds 17 '''')),
             (''billing_number'', PStr (safe_get flds 24 '''')),
             (''route_label'', PStr (route_label_text (safe_get flds 25 ''''))),
             (''route_attempt_num'', PStr (safe_get flds 26 '''')),
             (''route_selected'', PStr (safe_get flds 27 '''')),
             (''ingress_tg'', PStr (safe_get flds 30 '''')),
             (''disconnect_initiator'',
                PStr (disconnect_initiator_text (safe_get no_prot 56 ''''))),
             (''egress_tg'', PStr (safe_get no_prot 57 '''')),
             (''ingress_codec'', PStr (get_codec_value (safe_get no_prot 68 ''''))),
             (''egress_codec'', PStr (get_codec_value (safe_get no_prot 69 ''''))),
             (''sbc_call_id'', PStr (safe_get no_prot 71 '''')),
             (''ingress_local_ip'', PStr (safe_get no_prot 114 '''')),
             (''ingress_remote_ip'', PStr (safe_get no_prot 115 ''''))];
          d = set_rtp d (safe_get flds 32 '''')
                ''ingress_local_rtp_ip'' ''ingress_remote_rtp_ip'';
          d = dict_update d
            [(''ingress_audio_packets_sent'', PStr ''N/A''),
             (''ingress_audio_packets_rcvd'', PStr ''N/A''),
             (''ingress_packets_lost'', PStr ''N/A''),
             (''egress_local_ip'', PStr (safe_get flds 28 '''')),
             (''egress_remote_ip'', PStr (safe_get flds 29 ''''))];
          d = set_rtp d (safe_get flds 34 '''')
                ''egress_local_rtp_ip'' ''egress_remote_rtp_ip''
      in dict_update d
            [(''egress_audio_packets_sent'', PStr ''N/A''),
             (''egress_audio_packets_rcvd'', PStr ''N/A''),
             (''egress_packets_lost'', PStr ''N/A''),
             (''stop_date'', PStr (safe_get no_prot 104 ''''))])"

text \<open>
  Lines 272 to 395. The three \<^verbatim>\<open>try\<close> statements are the only places that can
  raise; each raises the same \<^verbatim>\<open>OverflowError\<close> or nothing and has no other effect.
  \<open>stop_block\<close> evaluates them first, in source order, and an error of any of them is
  the result of the block; otherwise \<open>stop_assignments\<close> performs the assignments of
  the block in source order, with the three computed values. The two packets-lost keys
  are first assigned their raw value and then the rendered one, as in the source.
\<close>

definition stop_assignments ::
  "tables \<Rightarrow> string list \<Rightarrow> string list \<Rightarrow> string list \<Rightarrow> pyval \<Rightarrow> string \<Rightarrow> string \<Rightarrow>
     pydict \<Rightarrow> pydict" where
  "stop_assignments T no_prot flds calling_name duration ingress_packets_lost
       egress_packets_lost d0 =
     (let d = dict_update d0
            [(''stop_date'', PStr (safe_get flds 10 '''')),
             (''disconnect_time'', PStr (safe_get flds 11 '''')),
             (''duration'', duration),
             (''disconnect_reason'', PStr (disconnect_reason_text T (safe_get flds 14 ''''))),
             (''service_provider'', PStr (service_provider_text (safe_get flds 17 ''''))),
             (''calling_number'',
                PStr (annotate_calling_number (safe_get flds 19 '''') calling_name)),
             (''called_number'', PStr (safe_get flds 20 '''')),
             (''billing_number'', PStr (safe_get flds 27 '''')),
             (''route_label'', PStr (route_label_text (safe_get flds 28 ''''))),
             (''route_attempt_num'', PStr (safe_get flds 29 '''')),
             (''route_selected'', PStr (safe_get flds 30 '''')),
             (''ingress_tg'', PStr (safe_get flds 33 '''')),
             (''disconnect_initiator'',
                PStr (disconnect_initiator_text (safe_get no_prot 63 ''''))),
             (''egress_tg'', PStr (safe_get no_prot 67 '''')),
             (''ingress_codec'', PStr (get_codec_value (safe_get no_prot 78 ''''))),
             (''egress_codec'', PStr (get_codec_value (safe_get no_prot 79 ''''))),
             (''sbc_call_id'', PStr (safe_get no_prot 81 '''')),
             (''ingress_local_ip'', PStr (safe_get no_prot 124 '''')),
             (''ingress_remote_ip'', PStr (safe_get no_prot 125 ''''))];
          d = set_rtp d (safe_get flds 35 '''')
                ''ingress_local_rtp_ip'' ''ingress_remote_rtp_ip'';
          d = dict_update d
            [(''ingress_audio_packets_sent'', PStr (safe_get flds 39 '''')),
             (''ingress_audio_packets_rcvd'', PStr (safe_get flds 41 '''')),
             (''ingress_packets_lost'', PStr (safe_get no_prot 64 '''')),
             (''ingress_packets_lost'', PStr ingress_packets_lost),
             (''egress_local_ip'', PStr (safe_get flds 31 '''')),
             (''egress_remote_ip'', PStr (safe_get flds 32 ''''))];
          d = set_rtp d (safe_get flds 37 '''')
                ''egress_local_rtp_ip'' ''egress_remote_rtp_ip''
      in dict_update d
            [(''egress_audio_packets_sent'', PStr (safe_get no_prot 145 '''')),
             (''egress_audio_packets_rcvd'', PStr (safe_get no_prot 147 '''')),
             (''egress_packets_lost'', PStr (safe_get no_prot 148 '''')),
             (''egress_packets_lost'', PStr egress_packets_lost)])"

definition stop_block ::
  "tables \<Rightarrow> string list \<Rightarrow> string list \<Rightarrow> string list \<Rightarrow> pydict \<Rightarrow> error + pydict" where
  "stop_block T no_prot flds calling_name d0 =
     (case duration_value (safe_get flds 13 '''') of
        Inl e \<Rightarrow> Inl e
      | Inr duration \<Rightarrow>
     (case packets_lost_value (safe_get flds 41 '''') (safe_get no_prot 64 '''') of
        Inl e \<Rightarrow> Inl e
      | Inr ingress_packets_lost \<Rightarrow>
     (case packets_lost_value (safe_get no_prot 147 '''') (safe_get no_prot 148 '''') of
        Inl e \<Rightarrow> Inl e
      | Inr egress_packets_lost \<Rightarrow>
          Inr (stop_assignments T no_prot flds calling_name duration ingress_packets_lost
                 egress_packets_lost d0))))"

text \<open>Lines 397 to 461:\<close>

definition start_block ::
  "tables \<Rightarrow> string list \<Rightarrow> string list \<Rightarrow> string list \<Rightarrow> pydict \<Rightarrow> pydict" where
  "start_block T no_prot flds calling_name d0 =
     (let d = dict_update d0
            [(''disconnect_time'', PStr ''N/A''),
             (''duration'', PStr ''N/A''),
             (''disconnect_reason'', PStr ''N/A''),
             (''service_provider'', PStr (service_provider_text (safe_get flds 12 ''''))),
             (''calling_number'',
                PStr (annotate_calling_number (safe_get flds 15 '''') calling_name)),
             (''called_number'', PStr (safe_get flds 16 '''')),
             (''billing_number'', PStr (safe_get flds 22 '''')),
             (''route_label'', PStr (route_label_text (safe_get flds 23 ''''))),
             (''route_attempt_num'', PStr (safe_get flds 24 '''')),
             (''route_selected'', PStr (safe_get flds 25 '''')),
             (''ingress_tg'', PStr (safe_get flds 28 '''')),
             (''disconnect_initiator'', PStr ''N/A''),
             (''egress_tg'', PStr (safe_get no_prot 53 '''')),
             (''ingress_codec'', PStr ''N/A''),
             (''egress_codec'', PStr ''N/A''),
             (''sbc_call_id'', PStr (safe_get no_prot 64 '''')),
             (''ingress_local_ip'', PStr (safe_get no_prot 101 '''')),
             (''ingress_remote_ip'', PStr (safe_get no_prot 102 ''''))];
          d = set_rtp d (safe_get flds 30 '''')
                ''ingress_local_rtp_ip'' ''ingress_remote_rtp_ip'';
          d = dict_update d
            [(''ingress_audio_packets_sent'', PStr ''N/A''),
             (''ingress_audio_packets_rcvd'', PStr ''N/A''),
             (''ingress_packets_lost'', PStr ''N/A''),
             (''egress_local_ip'', PStr (safe_get flds 26 '''')),
             (''egress_remote_ip'', PStr (safe_get flds 27 ''''))];
          d = set_rtp d (safe_get flds 32 '''')
                ''egress_local_rtp_ip'' ''egress_remote_rtp_ip''
      in dict_update d
            [(''egress_audio_packets_sent'', PStr ''N/A''),
             (''egress_audio_packets_rcvd'', PStr ''N/A''),
             (''egress_packets_lost'', PStr ''N/A'')])"

subsection \<open>The decoder\<close>

text \<open>
  Lines 141 to 182, the part common to every line, followed by the three blocks. The
  result is \<open>Inr\<close> the dictionary, or \<open>Inl\<close> the exception that leaves the function.
\<close>

definition common_block :: "tables \<Rightarrow> string list \<Rightarrow> string list \<Rightarrow> pydict" where
  "common_block T flds parsed =
     (let d = [(''calling_name'', PList (calling_name_of parsed))];
          d = dict_update d
                (parse_prot_data_side T (ingr_prot_data flds parsed) ''ingress'' 12);
          d = dict_update d
                (parse_prot_data_side T (egr_prot_data flds parsed) ''egress'' 13);
          d = setdefault d ''ing_device_name'' (PStr ''N/A'');
          d = setdefault d ''egr_device_name'' (PStr ''N/A'')
      in dict_update d
            [(''cdr_type'', PStr (safe_get flds 0 '''')),
             (''gateway_name'', PStr (safe_get flds 1 '''')),
             (''start_date'', PStr (safe_get flds 5 '''')),
             (''start_time'', PStr (safe_get flds 6 ''''))])"

definition decode_fields ::
  "tables \<Rightarrow> string list \<Rightarrow> string list \<Rightarrow> string list \<Rightarrow> error + pydict" where
  "decode_fields T no_prot flds parsed =
     (let cdr_type = safe_get flds 0 '''';
          calling_name = calling_name_of parsed;
          d = common_block T flds parsed;
          d = (if cdr_type = ''ATTEMPT'' then attempt_block T no_prot flds calling_name d
               else d)
      in case (if cdr_type = ''STOP'' then stop_block T no_prot flds calling_name d
               else Inr d) of
           Inl e \<Rightarrow> Inl e
         | Inr d \<Rightarrow>
             Inr (if cdr_type = ''START'' then start_block T no_prot flds calling_name d
                  else d))"

definition parse_cdr_to_dict :: "tables \<Rightarrow> string \<Rightarrow> error + pydict" where
  "parse_cdr_to_dict T raw_cdr =
     decode_fields T (cdr_fields_without_prot_data raw_cdr) (fields_of raw_cdr)
       (cdr_fields_parsed raw_cdr)"

text \<open>The value the decoder stores under a key, when it returns and the key is present.\<close>

definition decoded :: "tables \<Rightarrow> string \<Rightarrow> string \<Rightarrow> pyval option" where
  "decoded T raw_cdr key =
     (case parse_cdr_to_dict T raw_cdr of Inl e \<Rightarrow> None | Inr d \<Rightarrow> map_of d key)"

text \<open>Tables without any entry, for evaluating the decoder on concrete lines.\<close>

definition no_tables :: tables where
  "no_tables = \<lparr>cdr_disconnect_reason = (\<lambda>k. None), sip_cause_code_mapping = (\<lambda>k. None)\<rparr>"

section \<open>Notions of the specification\<close>

text \<open>
  The specification speaks of three things the source has no function for. They are
  defined here in the specification's words, to be compared with what the decoder
  computes.

  The number of unquoted commas of a line: a double quote toggles the state "inside a
  quoted region", and a comma counts when it is read outside such a region.
\<close>

fun unquoted_commas :: "bool \<Rightarrow> string \<Rightarrow> nat" where
  "unquoted_commas inside [] = 0"
| "unquoted_commas inside (c # cs) =
     (if c = dquote then unquoted_commas (\<not> inside) cs
      else if c = CHR '','' \<and> \<not> inside then Suc (unquoted_commas inside cs)
      else unquoted_commas inside cs)"

text \<open>
  The quoted segments of a line: the contents between matching double quotes, in order
  of appearance. Segment number \<open>k\<close> (counted from 1) is \<open>quoted_segments s ! (k - 1)\<close>.
\<close>

function quoted_segments :: "string \<Rightarrow> string list" where
  "quoted_segments [] = []"
| "quoted_segments (x # xs) =
     (if x = dquote then
        (if dquote \<in> set xs
         then takeWhile (\<lambda>c. c \<noteq> dquote) xs #
              quoted_segments (tl (dropWhile (\<lambda>c. c \<noteq> dquote) xs))
         else [])
      else quoted_segments xs)"
  by pat_completeness auto
termination
  by (relation "measure length")
     (auto simp: less_Suc_eq_le intro: le_trans [OF diff_le_self length_dropWhile_le])

definition quoted_segment :: "string \<Rightarrow> nat \<Rightarrow> string" where
  "quoted_segment raw_cdr k = quoted_segments (py_strip raw_cdr) ! (k - 1)"

text \<open>
  The top-level field at a 1-based position of the line, empty when the line has fewer
  fields.
\<close>

definition field_at_position :: "string \<Rightarrow> nat \<Rightarrow> string" where
  "field_at_position raw_cdr p = safe_get (fields_of raw_cdr) (int p - 1) ''''"

text \<open>
  What the decoder stores for one leg when the leg is parsed from a given token list:
  the output of \<^verbatim>\<open>parse_prot_data_side\<close> with the device name defaulted (step 4
  of the decoder's contract), under the keys of that leg.
\<close>

definition ingress_leg :: "tables \<Rightarrow> string list \<Rightarrow> pydict" where
  "ingress_leg T tokens =
     setdefault (parse_prot_data_side T tokens ''ingress'' 12) ''ing_device_name'' (PStr ''N/A'')"

definition egress_leg :: "tables \<Rightarrow> string list \<Rightarrow> pydict" where
  "egress_leg T tokens =
     setdefault (parse_prot_data_side T tokens ''egress'' 13) ''egr_device_name'' (PStr ''N/A'')"

definition ingress_keys :: "string list" where
  "ingress_keys = [''ingress_call_id'', ''ingress_status'', ''ing_device_name'']"

definition egress_keys :: "string list" where
  "egress_keys = [''egress_call_id'', ''egress_status'', ''egr_device_name'']"

definition agrees_on :: "pydict \<Rightarrow> pydict \<Rightarrow> string list \<Rightarrow> bool" where
  "agrees_on d e ks = list_all (\<lambda>k. map_of d k = map_of e k) ks"

text \<open>The keys assigned before the dispatch on the record type (lines 166 to 182).\<close>

definition common_keys :: "string set" where
  "common_keys =
     {''calling_name'', ''ingress_call_id'', ''ingress_status'', ''ing_device_name'',
      ''egress_call_id'', ''egress_status'', ''egr_device_name'',
      ''cdr_type'', ''gateway_name'', ''start_date'', ''start_time''}"

section \<open>Example lines\<close>

text \<open>Concrete lines on which the decoder is evaluated below.\<close>

definition in_quotes :: "string \<Rightarrow> string" where
  "in_quotes s = dquote # s @ [dquote]"

text \<open>The line \<^verbatim>\<open>a,"b,c",d\<close>: one quoted segment with a comma inside.\<close>

definition line_quoted_comma :: string where
  "line_quoted_comma = ''a,'' @ in_quotes ''b,c'' @ '',d''"

text \<open>
  A protocol trace of 19 tokens: \<^verbatim>\<open>SIP\<close>, a call id, and 17 empty tokens.
\<close>

definition trace_with_call_id :: "string \<Rightarrow> string" where
  "trace_with_call_id call_id = ''SIP,'' @ call_id @ replicate 17 (CHR '','')"

text \<open>
  A START line with 41 empty fields after the record type and then five quoted
  segments: three traces with the call ids I1, E2 and E4, and the names n3 and n5 as
  third and fifth segment. Field 41 (counted from 0) is the beginning of the first
  trace and contains SIP.
\<close>

definition line_five_segments :: string where
  "line_five_segments =
     ''START'' @ replicate 41 (CHR '','') @ in_quotes (trace_with_call_id ''I1'') @ '','' @
     in_quotes (trace_with_call_id ''E2'') @ '','' @ in_quotes ''n3'' @ '','' @
     in_quotes (trace_with_call_id ''E4'') @ '','' @ in_quotes ''n5''"

text \<open>A line of no known record type with one quoted trace.\<close>

definition line_unknown_one_segment :: string where
  "line_unknown_one_segment = ''HELLO,'' @ in_quotes (trace_with_call_id ''E1'')"

text \<open>
  An ATTEMPT line and a STOP line with marked fields. In the ATTEMPT line the fields at
  the 1-based positions 16, 17 and 18 are p16, p17 and p18; in the STOP line the fields
  at the positions 13, 14 and 15 are 100, 306 and 16.
\<close>

definition line_attempt_positions :: string where
  "line_attempt_positions = ''ATTEMPT'' @ replicate 15 (CHR '','') @ ''p16,p17,p18''"

definition line_stop_positions :: string where
  "line_stop_positions = ''STOP'' @ replicate 12 (CHR '','') @ ''100,306,16''"

text \<open>
  An ATTEMPT line with the calling number 5551234 at index 16 and three quoted segments,
  the third of them the calling name Bob.
\<close>

definition line_attempt_named :: string where
  "line_attempt_named =
     ''ATTEMPT'' @ replicate 16 (CHR '','') @ ''5551234,'' @ in_quotes ''a'' @ '','' @
     in_quotes ''b'' @ '','' @ in_quotes ''Bob''"

text \<open>
  The decimal numeral of \<open>10 ^ 309\<close>, a 1 followed by 309 zeros, and two STOP lines
  that carry it: one as the duration (index 13), one as the ingress packets-lost count
  (index 64) next to the received count 1 (index 41).
\<close>

definition huge_count :: string where
  "huge_count = CHR ''1'' # replicate 309 (CHR ''0'')"

definition line_stop_huge_duration :: string where
  "line_stop_huge_duration = ''STOP'' @ replicate 13 (CHR '','') @ huge_count"

definition line_stop_huge_loss :: string where
  "line_stop_huge_loss =
     ''STOP'' @ replicate 41 (CHR '','') @ ''1'' @ replicate 23 (CHR '','') @ huge_count"

section \<open>Properties\<close>

subsection \<open>Dictionaries\<close>

lemma map_of_set_item [simp]: "map_of (set_item d k v) = (map_of d)(k \<mapsto> v)"
  by (simp add: set_item_def update_conv')

lemma dict_update_Nil [simp]: "dict_update d [] = d"
  by (simp add: dict_update_def)

lemma dict_update_Cons [simp]:
  "dict_update d ((k, v) # kvs) = dict_update (set_item d k v) kvs"
  by (simp add: dict_update_def)

lemma map_of_dict_update: "map_of (dict_update d other) = map_of d ++ map_of (rev other)"
  by (induction other arbitrary: d) (auto simp: map_add_def fun_eq_iff split: option.splits)

lemma dom_dict_update:
  "dom (map_of (dict_update d other)) = dom (map_of d) \<union> dom (map_of other)"
  by (simp add: map_of_dict_update dom_map_of_conv_image_fst Un_commute)

lemma map_of_setdefault:
  "map_of (setdefault d k v) =
     (case map_of d k of None \<Rightarrow> (map_of d)(k \<mapsto> v) | Some w \<Rightarrow> map_of d)"
  by (simp add: setdefault_def split: option.splits)

lemma dom_setdefault: "dom (map_of (setdefault d k v)) = insert k (dom (map_of d))"
  by (auto simp: map_of_setdefault split: option.splits if_splits)

lemma map_of_set_rtp:
  "map_of (set_rtp d r lk rk) =
     (if r \<noteq> [] \<and> py_contains ''/'' r
      then (map_of d)(lk \<mapsto> PStr (safe_get (py_split (CHR ''/'') (py_strip r)) 0 ''''),
                      rk \<mapsto> PStr (safe_get (py_split (CHR ''/'') (py_strip r)) 1 ''''))
      else map_of d)"
  by (simp add: set_rtp_def Let_def)

subsection \<open>The keys of the common part\<close>

lemma dom_prot_ingress:
  "dom (map_of (parse_prot_data_side T p ''ingress'' 12)) =
     (if length p < 19 then {''ingress_call_id'', ''ingress_status''}
      else {''ingress_call_id'', ''ingress_status'', ''ing_device_name''})"
  by (auto simp: parse_prot_data_side_def Let_def split: if_splits)

lemma dom_prot_egress:
  "dom (map_of (parse_prot_data_side T p ''egress'' 13)) =
     (if length p < 19 then {''egress_call_id'', ''egress_status''}
      else {''egress_call_id'', ''egress_status'', ''egr_device_name''})"
  by (auto simp: parse_prot_data_side_def Let_def split: if_splits)

lemma dom_common_block:
  "dom (map_of (common_block T flds parsed)) =
     {''calling_name'', ''ingress_call_id'', ''ingress_status'', ''ing_device_name'',
      ''egress_call_id'', ''egress_status'', ''egr_device_name'',
      ''cdr_type'', ''gateway_name'', ''start_date'', ''start_time''}"
  unfolding common_block_def Let_def
  by (simp add: dom_setdefault dom_dict_update dom_prot_ingress dom_prot_egress
        del: dict_update_Cons) auto

lemma decode_fields_unrecognized:
  assumes "safe_get flds 0 '''' \<noteq> ''ATTEMPT''" "safe_get flds 0 '''' \<noteq> ''STOP''"
    "safe_get flds 0 '''' \<noteq> ''START''"
  shows "decode_fields T no_prot flds parsed = Inr (common_block T flds parsed)"
  using assms by (simp add: decode_fields_def Let_def)

subsection \<open>Unrecognized record types\<close>

text \<open>
  Claim C6. For a line whose first field is none of START, ATTEMPT and STOP the decoder
  raises nothing: it returns a dictionary, and the keys of that dictionary are exactly
  the eleven keys assigned before the dispatch on the record type. No key that only one
  of the three type blocks assigns (\<^verbatim>\<open>calling_number\<close>, \<^verbatim>\<open>duration\<close>, ...) is
  present.
\<close>

theorem unrecognized_type_common_keys_only:
  assumes "safe_get (fields_of raw_cdr) 0 '''' \<notin> {''START'', ''ATTEMPT'', ''STOP''}"
  shows "\<exists>d. parse_cdr_to_dict T raw_cdr = Inr d \<and>
           dom (map_of d) =
             {''calling_name'', ''ingress_call_id'', ''ingress_status'', ''ing_device_name'',
              ''egress_call_id'', ''egress_status'', ''egr_device_name'',
              ''cdr_type'', ''gateway_name'', ''start_date'', ''start_time''}"
proof -
  have "parse_cdr_to_dict T raw_cdr =
          Inr (common_block T (fields_of raw_cdr) (cdr_fields_parsed raw_cdr))"
    unfolding parse_cdr_to_dict_def using assms by (intro decode_fields_unrecognized) auto
  then show ?thesis
    by (simp add: dom_common_block)
qed

theorem unrecognized_type_common_keys_only_witness:
  "safe_get (fields_of ''HELLO,gw1'') 0 '''' \<notin> {''START'', ''ATTEMPT'', ''STOP''} \<and>
   (\<exists>d. parse_cdr_to_dict no_tables ''HELLO,gw1'' = Inr d \<and>
      dom (map_of d) =
        {''calling_name'', ''ingress_call_id'', ''ingress_status'', ''ing_device_name'',
         ''egress_call_id'', ''egress_status'', ''egr_device_name'',
         ''cdr_type'', ''gateway_name'', ''start_date'', ''start_time''})"
proof -
  have h: "safe_get (fields_of ''HELLO,gw1'') 0 '''' \<notin> {''START'', ''ATTEMPT'', ''STOP''}"
    by code_simp
  from unrecognized_type_common_keys_only [OF h, of no_tables] h show ?thesis
    by blast
qed

subsection \<open>White space around the line\<close>

lemma not_space_dquote: "\<not> is_space dquote"
  by (simp add: is_space_def dquote_def)

lemma rstrip_append_spaces:
  assumes "\<forall>c \<in> set b. is_space c"
  shows "rev (dropWhile is_space (rev (y @ b))) = rev (dropWhile is_space (rev y))"
proof -
  have "dropWhile is_space (rev b @ rev y) = dropWhile is_space (rev y)"
    by (rule dropWhile_append2) (use assms in auto)
  then show ?thesis by simp
qed

lemma py_strip_pad:
  assumes a: "\<forall>c \<in> set a. is_space c" and b: "\<forall>c \<in> set b. is_space c"
  shows "py_strip (a @ u @ b) = py_strip u"
proof -
  have "dropWhile is_space (a @ u @ b) = dropWhile is_space (u @ b)"
    by (rule dropWhile_append2) (use a in auto)
  then have l: "py_strip (a @ u @ b) = rev (dropWhile is_space (rev (dropWhile is_space (u @ b))))"
    by (simp only: py_strip_def)
  show ?thesis
  proof (cases "dropWhile is_space u = []")
    case True
    then have "\<forall>c \<in> set u. is_space c"
      by (simp add: dropWhile_eq_Nil_conv)
    then have "dropWhile is_space (u @ b) = []"
      using b by (auto simp: dropWhile_eq_Nil_conv)
    then have "py_strip (a @ u @ b) = rev (dropWhile is_space (rev []))"
      using l by (simp only:)
    moreover have "py_strip u = rev (dropWhile is_space (rev []))"
      using True by (simp only: py_strip_def)
    ultimately show ?thesis by (simp only:)
  next
    case False
    then have "\<exists>c \<in> set u. \<not> is_space c"
      by (auto simp: dropWhile_eq_Nil_conv)
    then have "dropWhile is_space (u @ b) = dropWhile is_space u @ b"
      by (auto simp: dropWhile_append1)
    then have "py_strip (a @ u @ b) = rev (dropWhile is_space (rev (dropWhile is_space u @ b)))"
      using l by (simp only:)
    also have "\<dots> = rev (dropWhile is_space (rev (dropWhile is_space u)))"
      by (rule rstrip_append_spaces [OF b])
    finally show ?thesis by (simp only: py_strip_def)
  qed
qed

lemma py_strip_decomp:
  "\<exists>a b. s = a @ py_strip s @ b \<and> (\<forall>c \<in> set a. is_space c) \<and> (\<forall>c \<in> set b. is_space c)"
proof -
  let ?a = "takeWhile is_space s"
  let ?m = "dropWhile is_space s"
  let ?b = "rev (takeWhile is_space (rev ?m))"
  have "rev ?m = takeWhile is_space (rev ?m) @ dropWhile is_space (rev ?m)"
    by simp
  then have "?m = rev (dropWhile is_space (rev ?m)) @ ?b"
    by (metis rev_append rev_rev_ident)
  then have "s = ?a @ py_strip s @ ?b"
    by (metis py_strip_def takeWhile_dropWhile_id)
  moreover have "\<forall>c \<in> set ?a. is_space c"
    by (auto dest: set_takeWhileD)
  moreover have "\<forall>c \<in> set ?b. is_space c"
    by (auto dest: set_takeWhileD)
  ultimately show ?thesis by blast
qed

lemma py_strip_idem: "py_strip (py_strip s) = py_strip s"
proof -
  obtain a b where "s = a @ py_strip s @ b" "\<forall>c \<in> set a. is_space c" "\<forall>c \<in> set b. is_space c"
    using py_strip_decomp by blast
  then show ?thesis
    using py_strip_pad [of a b "py_strip s"] by simp
qed

lemma re_sub_quoted_prepend:
  "dquote \<notin> set a \<Longrightarrow> re_sub_quoted (a @ s) = a @ re_sub_quoted s"
  by (induction a) auto

lemma re_sub_quoted_append:
  "dquote \<notin> set b \<Longrightarrow> re_sub_quoted (s @ b) = re_sub_quoted s @ b"
proof (induction s rule: re_sub_quoted.induct)
  case 1
  then show ?case using re_sub_quoted_prepend [of b "[]"] by simp
next
  case (2 x xs)
  show ?case
  proof (cases "x = dquote")
    case False
    with 2 show ?thesis by simp
  next
    case True
    show ?thesis
    proof (cases "dquote \<in> set xs")
      case False
      with True 2 show ?thesis by simp
    next
      case in_xs: True
      then have "dropWhile (\<lambda>c. c \<noteq> dquote) (xs @ b) = dropWhile (\<lambda>c. c \<noteq> dquote) xs @ b"
        by (auto simp: dropWhile_append1)
      moreover have "dropWhile (\<lambda>c. c \<noteq> dquote) xs \<noteq> []"
        using in_xs by (auto simp: dropWhile_eq_Nil_conv)
      ultimately have "tl (dropWhile (\<lambda>c. c \<noteq> dquote) (xs @ b)) = tl (dropWhile (\<lambda>c. c \<noteq> dquote) xs) @ b"
        by simp
      with True in_xs 2 show ?thesis by simp
    qed
  qed
qed

lemma strip_re_sub_quoted_strip:
  "py_strip (re_sub_quoted (py_strip s)) = py_strip (re_sub_quoted s)"
proof -
  obtain a b where s: "s = a @ py_strip s @ b" and a: "\<forall>c \<in> set a. is_space c"
    and b: "\<forall>c \<in> set b. is_space c"
    using py_strip_decomp by blast
  have "dquote \<notin> set a" "dquote \<notin> set b"
    using a b not_space_dquote by auto
  then have "re_sub_quoted (a @ py_strip s @ b) = a @ re_sub_quoted (py_strip s) @ b"
    by (simp add: re_sub_quoted_prepend re_sub_quoted_append)
  then have "py_strip (re_sub_quoted (a @ py_strip s @ b)) = py_strip (re_sub_quoted (py_strip s))"
    using py_strip_pad [OF a b] by simp
  with s show ?thesis by simp
qed

text \<open>
  Claim C10. The decoder is invariant under leading and trailing white space: decoding
  the stripped line gives the same result (the same dictionary or the same exception)
  as decoding the line itself. The two plain tokenizations strip the line first; the
  redacted one strips after the quoted spans are removed, and the white space around
  the line contains no quote, so it survives the removal and is stripped then.
\<close>

theorem decode_invariant_under_strip:
  "parse_cdr_to_dict T (py_strip raw_cdr) = parse_cdr_to_dict T raw_cdr"
  by (simp add: parse_cdr_to_dict_def cdr_fields_without_prot_data_def fields_of_def
        cdr_fields_parsed_def py_strip_idem strip_re_sub_quoted_strip)

subsection \<open>The tokenizations\<close>

lemma py_split_not_Nil: "py_split c s \<noteq> []"
  by (induction s) (auto split: list.splits)

lemma length_py_split: "length (py_split c s) = count_list s c + 1"
  by (induction s) (auto split: list.splits simp: py_split_not_Nil)

lemma count_list_py_strip:
  assumes "\<not> is_space c"
  shows "count_list (py_strip s) c = count_list s c"
proof -
  obtain a b where s: "s = a @ py_strip s @ b" and a: "\<forall>c \<in> set a. is_space c"
    and b: "\<forall>c \<in> set b. is_space c"
    using py_strip_decomp by blast
  have "count_list a c = 0" "count_list b c = 0"
    using a b assms by (auto simp: count_list_0_iff)
  then have "count_list (a @ py_strip s @ b) c = count_list (py_strip s) c"
    by simp
  with s show ?thesis by simp
qed

lemma not_space_comma: "\<not> is_space (CHR '','')"
  by (simp add: is_space_def)

lemma unquoted_commas_inside_skip:
  "dquote \<notin> set pre \<Longrightarrow> unquoted_commas True (pre @ rest) = unquoted_commas True rest"
proof (induction pre)
  case Nil
  then show ?case by simp
next
  case (Cons a pre)
  then have "a \<noteq> dquote" "dquote \<notin> set pre"
    by auto
  with Cons.IH show ?case
    by simp
qed

lemma split_at_quote:
  assumes "dquote \<in> set xs"
  shows "xs = takeWhile (\<lambda>c. c \<noteq> dquote) xs @ dquote # tl (dropWhile (\<lambda>c. c \<noteq> dquote) xs)"
proof (cases "dropWhile (\<lambda>c. c \<noteq> dquote) xs")
  case Nil
  then have "\<forall>x \<in> set xs. x \<noteq> dquote"
    by (simp add: dropWhile_eq_Nil_conv)
  with assms show ?thesis
    by blast
next
  case (Cons y ys)
  then have *: "xs = takeWhile (\<lambda>c. c \<noteq> dquote) xs @ y # ys \<and> \<not> y \<noteq> dquote"
    using dropWhile_eq_Cons_conv [of "\<lambda>c. c \<noteq> dquote" xs y ys] by blast
  then have "y = dquote"
    by blast
  with * show ?thesis
    unfolding Cons list.sel by blast
qed

lemma count_commas_re_sub_quoted:
  "even (count_list s dquote) \<Longrightarrow>
     count_list (re_sub_quoted s) (CHR '','') = unquoted_commas False s"
proof (induction s rule: re_sub_quoted.induct)
  case 1
  then show ?case by simp
next
  case (2 x xs)
  show ?case
  proof (cases "x = dquote")
    case False
    with 2 show ?thesis by simp
  next
    case True
    show ?thesis
    proof (cases "dquote \<in> set xs")
      case False
      then have "count_list xs dquote = 0"
        by (simp add: count_list_0_iff)
      with True 2 show ?thesis by simp
    next
      case in_xs: True
      let ?pre = "takeWhile (\<lambda>c. c \<noteq> dquote) xs"
      let ?rest = "tl (dropWhile (\<lambda>c. c \<noteq> dquote) xs)"
      have xs: "xs = ?pre @ dquote # ?rest"
        by (rule split_at_quote [OF in_xs])
      have pre: "dquote \<notin> set ?pre"
        by (auto dest: set_takeWhileD)
      then have "count_list ?pre dquote = 0"
        by (simp add: count_list_0_iff)
      then have "count_list xs dquote = Suc (count_list ?rest dquote)"
        by (subst xs) simp
      with True 2 have ev: "even (count_list ?rest dquote)"
        by simp
      have "unquoted_commas True xs = unquoted_commas True (dquote # ?rest)"
        by (subst xs) (rule unquoted_commas_inside_skip [OF pre])
      then have "unquoted_commas False (x # xs) = unquoted_commas False ?rest"
        using True by simp
      moreover have "count_list (re_sub_quoted (x # xs)) (CHR '','') = unquoted_commas False ?rest"
        using True in_xs 2 ev by simp
      ultimately show ?thesis by simp
    qed
  qed
qed

text \<open>
  Claim C2, as the code has it. The top-level field list of the decoder is the plain
  comma split of the stripped line: every comma is a delimiter, also one inside a
  double-quoted region, so the field count is the number of all commas plus one. The
  redacted field list is the comma split of the line with every quoted span removed
  (and then stripped); for a line whose quotes are balanced its length is the number of
  unquoted commas plus one.
\<close>

theorem fields_plain_split_redacted_quote_aware:
  "length (fields_of raw_cdr) = count_list raw_cdr (CHR '','') + 1 \<and>
   cdr_fields_without_prot_data raw_cdr =
     py_split (CHR '','') (py_strip (re_sub_quoted raw_cdr)) \<and>
   (even (count_list raw_cdr dquote) \<longrightarrow>
      length (cdr_fields_without_prot_data raw_cdr) = unquoted_commas False raw_cdr + 1)"
  by (simp add: fields_of_def cdr_fields_without_prot_data_def length_py_split
        count_list_py_strip not_space_comma count_commas_re_sub_quoted)

theorem fields_plain_split_redacted_quote_aware_witness:
  "even (count_list line_quoted_comma dquote) \<and>
   length (fields_of line_quoted_comma) = 4 \<and>
   length (cdr_fields_without_prot_data line_quoted_comma) = 3"
proof -
  have e: "even (count_list line_quoted_comma dquote)"
    by code_simp
  have c: "count_list line_quoted_comma (CHR '','') = 3"
    by code_simp
  have u: "unquoted_commas False line_quoted_comma = 2"
    by code_simp
  from fields_plain_split_redacted_quote_aware [of line_quoted_comma]
  have a: "length (fields_of line_quoted_comma) = count_list line_quoted_comma (CHR '','') + 1"
    and b: "even (count_list line_quoted_comma dquote) \<longrightarrow>
      length (cdr_fields_without_prot_data line_quoted_comma) =
        unquoted_commas False line_quoted_comma + 1"
    by blast+
  from a c have "length (fields_of line_quoted_comma) = 4"
    by simp
  moreover from b e u have "length (cdr_fields_without_prot_data line_quoted_comma) = 3"
    by simp
  ultimately show ?thesis
    using e by blast
qed

text \<open>
  The claim as stated fails: on the line \<^verbatim>\<open>a,"b,c",d\<close> the decoder's top-level
  field list has four fields, one more than the two unquoted commas plus one.
\<close>

theorem fields_not_quote_aware:
  "length (fields_of line_quoted_comma) \<noteq> unquoted_commas False line_quoted_comma + 1"
  by code_simp

subsection \<open>The type blocks leave the common keys alone\<close>

lemma map_of_dict_update_apply:
  "map_of (dict_update d other) k =
     (case map_of (rev other) k of None \<Rightarrow> map_of d k | Some v \<Rightarrow> Some v)"
  by (simp add: map_of_dict_update map_add_def)

lemma map_of_set_rtp_other:
  "k \<noteq> lk \<Longrightarrow> k \<noteq> rk \<Longrightarrow> map_of (set_rtp d r lk rk) k = map_of d k"
  by (simp add: map_of_set_rtp)

lemmas lookup_simps = map_of_dict_update_apply map_of_set_rtp_other

lemma attempt_block_keeps:
  "k \<in> common_keys \<Longrightarrow> map_of (attempt_block T no_prot flds calling_name d) k = map_of d k"
  unfolding common_keys_def attempt_block_def Let_def
  by (elim insertE emptyE; simp add: lookup_simps del: dict_update_Cons)

lemma start_block_keeps:
  "k \<in> common_keys \<Longrightarrow> map_of (start_block T no_prot flds calling_name d) k = map_of d k"
  unfolding common_keys_def start_block_def Let_def
  by (elim insertE emptyE; simp add: lookup_simps del: dict_update_Cons)

lemma stop_assignments_keeps:
  "k \<in> common_keys \<Longrightarrow> map_of (stop_assignments T no_prot flds calling_name du i e d) k = map_of d k"
  unfolding common_keys_def stop_assignments_def Let_def
  by (elim insertE emptyE; simp add: lookup_simps del: dict_update_Cons)

lemma stop_block_InrD:
  assumes "stop_block T no_prot flds calling_name d = Inr d'"
  obtains du i e where "duration_value (safe_get flds 13 '''') = Inr du"
    "packets_lost_value (safe_get flds 41 '''') (safe_get no_prot 64 '''') = Inr i"
    "packets_lost_value (safe_get no_prot 147 '''') (safe_get no_prot 148 '''') = Inr e"
    "d' = stop_assignments T no_prot flds calling_name du i e d"
  using assms unfolding stop_block_def by (auto split: sum.splits)

lemma decode_fields_keeps:
  assumes "decode_fields T no_prot flds parsed = Inr d" "k \<in> common_keys"
  shows "map_of d k = map_of (common_block T flds parsed) k"
proof -
  consider (attempt) "safe_get flds 0 '''' = ''ATTEMPT''" | (stop) "safe_get flds 0 '''' = ''STOP''"
    | (start) "safe_get flds 0 '''' = ''START''"
    | (other) "safe_get flds 0 '''' \<noteq> ''ATTEMPT''" "safe_get flds 0 '''' \<noteq> ''STOP''"
       "safe_get flds 0 '''' \<noteq> ''START''"
    by blast
  then show ?thesis
  proof cases
    case attempt
    with assms(1) have "d = attempt_block T no_prot flds (calling_name_of parsed) (common_block T flds parsed)"
      by (simp add: decode_fields_def Let_def)
    then show ?thesis
      by (simp add: attempt_block_keeps [OF assms(2)])
  next
    case stop
    with assms(1) have "stop_block T no_prot flds (calling_name_of parsed) (common_block T flds parsed) = Inr d"
      by (simp add: decode_fields_def Let_def split: sum.splits)
    then show ?thesis
      by (elim stop_block_InrD) (simp add: stop_assignments_keeps [OF assms(2)])
  next
    case start
    with assms(1) have "d = start_block T no_prot flds (calling_name_of parsed) (common_block T flds parsed)"
      by (simp add: decode_fields_def Let_def)
    then show ?thesis
      by (simp add: start_block_keeps [OF assms(2)])
  next
    case other
    with assms(1) show ?thesis
      by (simp add: decode_fields_unrecognized)
  qed
qed

lemma parse_prot_data_side_short:
  "length p < 19 \<Longrightarrow>
     parse_prot_data_side T p side idx =
       [(side @ ''_call_id'', PStr ''N/A''), (side @ ''_status'', PStr ''N/A'')]"
  by (simp add: parse_prot_data_side_def)

lemma parse_prot_data_side_ingress_long:
  assumes "\<not> length p < 19"
  obtains a b where "parse_prot_data_side T p ''ingress'' 12 =
       [(''ingress_call_id'', a), (''ingress_status'', b),
        (''ing_device_name'', PStr (extract_device_name_from_contact (safe_get p 12 '''')))]"
proof -
  have "\<exists>a b. parse_prot_data_side T p ''ingress'' 12 =
       [(''ingress_call_id'', a), (''ingress_status'', b),
        (''ing_device_name'', PStr (extract_device_name_from_contact (safe_get p 12 '''')))]"
    using assms
    by (cases "py_strip (safe_get p 1 '''') = []")
       (simp_all add: parse_prot_data_side_def Let_def set_item_def)
  then show ?thesis
    using that by blast
qed

lemma parse_prot_data_side_egress_long:
  assumes "\<not> length p < 19"
  obtains a b where "parse_prot_data_side T p ''egress'' 13 =
       [(''egress_call_id'', a), (''egress_status'', b),
        (''egr_device_name'', PStr (extract_device_name_from_contact (safe_get p 13 '''')))]"
proof -
  have "\<exists>a b. parse_prot_data_side T p ''egress'' 13 =
       [(''egress_call_id'', a), (''egress_status'', b),
        (''egr_device_name'', PStr (extract_device_name_from_contact (safe_get p 13 '''')))]"
    using assms
    by (cases "py_strip (safe_get p 1 '''') = []")
       (simp_all add: parse_prot_data_side_def Let_def set_item_def)
  then show ?thesis
    using that by blast
qed

subsection \<open>The values of the common part\<close>

lemma common_block_values:
  "agrees_on (common_block T flds parsed) (ingress_leg T (ingr_prot_data flds parsed)) ingress_keys \<and>
   agrees_on (common_block T flds parsed) (egress_leg T (egr_prot_data flds parsed)) egress_keys \<and>
   map_of (common_block T flds parsed) ''calling_name'' = Some (PList (calling_name_of parsed)) \<and>
   map_of (common_block T flds parsed) ''cdr_type'' = Some (PStr (safe_get flds 0 '''')) \<and>
   map_of (common_block T flds parsed) ''gateway_name'' = Some (PStr (safe_get flds 1 '''')) \<and>
   map_of (common_block T flds parsed) ''start_date'' = Some (PStr (safe_get flds 5 '''')) \<and>
   map_of (common_block T flds parsed) ''start_time'' = Some (PStr (safe_get flds 6 ''''))"
proof -
  let ?i = "ingr_prot_data flds parsed" and ?e = "egr_prot_data flds parsed"
  have i: "length ?i < 19 \<and> parse_prot_data_side T ?i ''ingress'' 12 =
        [(''ingress_call_id'', PStr ''N/A''), (''ingress_status'', PStr ''N/A'')] \<or>
      (\<exists>a b. parse_prot_data_side T ?i ''ingress'' 12 =
        [(''ingress_call_id'', a), (''ingress_status'', b),
         (''ing_device_name'', PStr (extract_device_name_from_contact (safe_get ?i 12 '''')))])"
    using parse_prot_data_side_short [of ?i T "''ingress''" 12]
      parse_prot_data_side_ingress_long [of ?i T]
    by (cases "length ?i < 19") (simp, metis)
  have e: "length ?e < 19 \<and> parse_prot_data_side T ?e ''egress'' 13 =
        [(''egress_call_id'', PStr ''N/A''), (''egress_status'', PStr ''N/A'')] \<or>
      (\<exists>a b. parse_prot_data_side T ?e ''egress'' 13 =
        [(''egress_call_id'', a), (''egress_status'', b),
         (''egr_device_name'', PStr (extract_device_name_from_contact (safe_get ?e 13 '''')))])"
    using parse_prot_data_side_short [of ?e T "''egress''" 13]
      parse_prot_data_side_egress_long [of ?e T]
    by (cases "length ?e < 19") (simp, metis)
  from i e show ?thesis
    unfolding agrees_on_def ingress_keys_def egress_keys_def ingress_leg_def egress_leg_def
      common_block_def Let_def
    by (elim disjE conjE exE) (simp_all add: map_of_setdefault)
qed


lemma decode_fields_calling_name:
  assumes "decode_fields T no_prot flds parsed = Inr d"
  shows "map_of d ''calling_name'' = Some (PList (calling_name_of parsed))"
  using decode_fields_keeps [OF assms, of "''calling_name''"] common_block_values [of T flds parsed]
  by (simp add: common_keys_def)

lemma agrees_on_trans:
  "(\<And>k. k \<in> set ks \<Longrightarrow> map_of d k = map_of c k) \<Longrightarrow> agrees_on c e ks \<Longrightarrow> agrees_on d e ks"
  by (simp add: agrees_on_def list_all_iff)

lemma decode_fields_legs:
  assumes "decode_fields T no_prot flds parsed = Inr d"
  shows "agrees_on d (ingress_leg T (ingr_prot_data flds parsed)) ingress_keys"
    and "agrees_on d (egress_leg T (egr_prot_data flds parsed)) egress_keys"
proof -
  have "\<And>k. k \<in> set ingress_keys \<Longrightarrow> map_of d k = map_of (common_block T flds parsed) k"
    by (rule decode_fields_keeps [OF assms]) (auto simp: ingress_keys_def common_keys_def)
  then show "agrees_on d (ingress_leg T (ingr_prot_data flds parsed)) ingress_keys"
    using common_block_values [of T flds parsed] by (blast intro: agrees_on_trans)
  have "\<And>k. k \<in> set egress_keys \<Longrightarrow> map_of d k = map_of (common_block T flds parsed) k"
    by (rule decode_fields_keeps [OF assms]) (auto simp: egress_keys_def common_keys_def)
  then show "agrees_on d (egress_leg T (egr_prot_data flds parsed)) egress_keys"
    using common_block_values [of T flds parsed] by (blast intro: agrees_on_trans)
qed


lemma decode_returns_unless_stop:
  "safe_get (fields_of raw_cdr) 0 [] \<noteq> ''STOP'' \<Longrightarrow> \<exists>d. parse_cdr_to_dict T raw_cdr = Inr d"
  by (simp add: parse_cdr_to_dict_def decode_fields_def Let_def)

subsection \<open>Quoted segments and the split on the quote character\<close>

lemma py_split_Cons_other:
  "x \<noteq> c \<Longrightarrow> py_split c (x # xs) = (x # hd (py_split c xs)) # tl (py_split c xs)"
  by (cases "py_split c xs") (simp_all add: py_split_not_Nil)

lemma py_split_prefix:
  "c \<notin> set pre \<Longrightarrow> py_split c (pre @ c # rest) = pre # py_split c rest"
proof (induction pre)
  case Nil
  then show ?case by simp
next
  case (Cons a pre)
  then have "a \<noteq> c" "c \<notin> set pre"
    by auto
  with Cons.IH show ?case
    by (simp add: py_split_Cons_other)
qed

lemma quote_split_segments:
  "k < length (quoted_segments s) \<Longrightarrow>
     2 * k + 1 < length (py_split dquote s) \<and>
     py_split dquote s ! (2 * k + 1) = quoted_segments s ! k"
proof (induction s arbitrary: k rule: quoted_segments.induct)
  case 1
  then show ?case by simp
next
  case (2 x xs)
  show ?case
  proof (cases "x = dquote")
    case False
    with 2 have "k < length (quoted_segments xs)"
      by simp
    with 2 False have "2 * k + 1 < length (py_split dquote xs) \<and>
        py_split dquote xs ! (2 * k + 1) = quoted_segments xs ! k"
      by simp
    moreover obtain y ys where "py_split dquote xs = y # ys"
      by (cases "py_split dquote xs") (simp_all add: py_split_not_Nil)
    ultimately show ?thesis
      using False by simp
  next
    case True
    show ?thesis
    proof (cases "dquote \<in> set xs")
      case False
      with True 2 show ?thesis by simp
    next
      case in_xs: True
      let ?pre = "takeWhile (\<lambda>c. c \<noteq> dquote) xs"
      let ?rest = "tl (dropWhile (\<lambda>c. c \<noteq> dquote) xs)"
      have xs: "xs = ?pre @ dquote # ?rest"
        by (rule split_at_quote [OF in_xs])
      have pre: "dquote \<notin> set ?pre"
        by (auto dest: set_takeWhileD)
      have "py_split dquote xs = ?pre # py_split dquote ?rest"
        by (subst xs) (rule py_split_prefix [OF pre])
      then have sp: "py_split dquote (x # xs) = [] # ?pre # py_split dquote ?rest"
        using True by simp
      have qs: "quoted_segments (x # xs) = ?pre # quoted_segments ?rest"
        using True in_xs by simp
      show ?thesis
      proof (cases k)
        case 0
        then show ?thesis
          by (simp only: sp qs) simp
      next
        case (Suc j)
        with 2 qs have "j < length (quoted_segments ?rest)"
          by simp
        with 2 True in_xs have "2 * j + 1 < length (py_split dquote ?rest) \<and>
            py_split dquote ?rest ! (2 * j + 1) = quoted_segments ?rest ! j"
          by simp
        with Suc show ?thesis
          by (simp only: sp qs) simp
      qed
    qed
  qed
qed

lemma safe_get_nat: "n < length xs \<Longrightarrow> safe_get xs (int n) d = xs ! n"
  by (simp add: safe_get_def)

lemma parsed_segment:
  assumes "Suc k \<le> length (quoted_segments (py_strip raw_cdr))"
  shows "safe_get (cdr_fields_parsed raw_cdr) (int (2 * k + 1)) [] = quoted_segment raw_cdr (Suc k)"
proof -
  have k: "k < length (quoted_segments (py_strip raw_cdr))"
    using assms by simp
  have "safe_get (py_split dquote (py_strip raw_cdr)) (int (2 * k + 1)) [] =
          py_split dquote (py_strip raw_cdr) ! (2 * k + 1)"
    using quote_split_segments [OF k] by (intro safe_get_nat) simp
  also have "\<dots> = quoted_segments (py_strip raw_cdr) ! k"
    using quote_split_segments [OF k] by simp
  finally show ?thesis
    by (simp only: cdr_fields_parsed_def quoted_segment_def diff_Suc_1)
qed

text \<open>
  Claim C4, as the code has it. The decoder splits the stripped line on the double quote
  and reads the pieces 1, 3 and 5 (counted from 0); these are the quoted segments 1, 2
  and 3. So, for a line that has the segments in question: when the checker field
  contains SIP or GSX2GSX the ingress leg is parsed from quoted segment 1 and the egress
  leg from quoted segment 2; the calling name is parsed from quoted segment 3; otherwise
  the ingress leg is that of an empty trace and quoted segment 1 is tried as the egress
  trace. An egress trace without a SIP token is discarded in either case.
\<close>

theorem traces_from_quoted_segments:
  assumes "parse_cdr_to_dict T raw_cdr = Inr d"
  shows
   "(ingress_present (fields_of raw_cdr) \<and> 1 \<le> length (quoted_segments (py_strip raw_cdr)) \<longrightarrow>
       agrees_on d (ingress_leg T (split_or_empty (py_strip (quoted_segment raw_cdr 1))))
         ingress_keys) \<and>
    (ingress_present (fields_of raw_cdr) \<and> 2 \<le> length (quoted_segments (py_strip raw_cdr)) \<longrightarrow>
       agrees_on d
         (egress_leg T (discard_without_sip (split_or_empty (py_strip (quoted_segment raw_cdr 2)))))
         egress_keys) \<and>
    (3 \<le> length (quoted_segments (py_strip raw_cdr)) \<longrightarrow>
       map_of d ''calling_name'' =
         Some (PList (split_or_empty (py_strip (quoted_segment raw_cdr 3))))) \<and>
    (\<not> ingress_present (fields_of raw_cdr) \<longrightarrow> agrees_on d (ingress_leg T []) ingress_keys) \<and>
    (\<not> ingress_present (fields_of raw_cdr) \<and> 1 \<le> length (quoted_segments (py_strip raw_cdr)) \<longrightarrow>
       agrees_on d
         (egress_leg T (discard_without_sip (split_or_empty (py_strip (quoted_segment raw_cdr 1)))))
         egress_keys)"
proof -
  let ?f = "fields_of raw_cdr" and ?p = "cdr_fields_parsed raw_cdr"
  let ?n = "length (quoted_segments (py_strip raw_cdr))"
  from assms have d: "decode_fields T (cdr_fields_without_prot_data raw_cdr) ?f ?p = Inr d"
    by (simp add: parse_cdr_to_dict_def)
  have s1: "safe_get ?p 1 [] = quoted_segment raw_cdr 1" if "1 \<le> ?n"
    using parsed_segment [of 0 raw_cdr] that by simp
  have s2: "safe_get ?p 3 [] = quoted_segment raw_cdr 2" if "2 \<le> ?n"
    using parsed_segment [of 1 raw_cdr] that by (simp add: numeral_2_eq_2)
  have s3: "safe_get ?p 5 [] = quoted_segment raw_cdr 3" if "3 \<le> ?n"
    using parsed_segment [of 2 raw_cdr] that by (simp add: numeral_3_eq_3)
  show ?thesis
    using decode_fields_legs [OF d] decode_fields_calling_name [OF d] s1 s2 s3
    by (auto simp: ingr_prot_data_def egr_prot_data_def egr_raw_def calling_name_of_def)
qed


theorem traces_from_quoted_segments_witness:
  "(\<exists>d. parse_cdr_to_dict no_tables line_five_segments = Inr d \<and>
       ingress_present (fields_of line_five_segments) \<and>
       3 \<le> length (quoted_segments (py_strip line_five_segments)) \<and>
       agrees_on d
         (ingress_leg no_tables (split_or_empty (py_strip (quoted_segment line_five_segments 1))))
         ingress_keys \<and>
       agrees_on d
         (egress_leg no_tables (discard_without_sip
            (split_or_empty (py_strip (quoted_segment line_five_segments 2)))))
         egress_keys \<and>
       map_of d ''calling_name'' =
         Some (PList (split_or_empty (py_strip (quoted_segment line_five_segments 3))))) \<and>
   (\<exists>d. parse_cdr_to_dict no_tables line_unknown_one_segment = Inr d \<and>
       \<not> ingress_present (fields_of line_unknown_one_segment) \<and>
       1 \<le> length (quoted_segments (py_strip line_unknown_one_segment)) \<and>
       agrees_on d (ingress_leg no_tables []) ingress_keys \<and>
       agrees_on d
         (egress_leg no_tables (discard_without_sip
            (split_or_empty (py_strip (quoted_segment line_unknown_one_segment 1)))))
         egress_keys)"
proof -
  have "safe_get (fields_of line_five_segments) 0 [] \<noteq> ''STOP''"
    by code_simp
  then obtain d1 where d1: "parse_cdr_to_dict no_tables line_five_segments = Inr d1"
    using decode_returns_unless_stop by blast
  have p1: "ingress_present (fields_of line_five_segments)"
    by code_simp
  have n1: "3 \<le> length (quoted_segments (py_strip line_five_segments))"
    by code_simp
  have "safe_get (fields_of line_unknown_one_segment) 0 [] \<noteq> ''STOP''"
    by code_simp
  then obtain d2 where d2: "parse_cdr_to_dict no_tables line_unknown_one_segment = Inr d2"
    using decode_returns_unless_stop by blast
  have p2: "\<not> ingress_present (fields_of line_unknown_one_segment)"
    by code_simp
  have n2: "1 \<le> length (quoted_segments (py_strip line_unknown_one_segment))"
    by code_simp
  from n1 have n1': "1 \<le> length (quoted_segments (py_strip line_five_segments))"
    "2 \<le> length (quoted_segments (py_strip line_five_segments))"
    by simp_all
  show ?thesis
    using traces_from_quoted_segments [OF d1] traces_from_quoted_segments [OF d2]
      d1 d2 p1 p2 n1 n1' n2
    by blast
qed

text \<open>
  The claim as stated fails. On a line with five quoted segments whose checker field
  contains SIP, the decoder takes the calling name from the third segment (n3), not from
  the fifth (n5), and the egress call id from the second segment (E2), not from the
  third.
\<close>

theorem traces_not_from_segments_3_and_5:
  "ingress_present (fields_of line_five_segments) \<and>
   decoded no_tables line_five_segments ''calling_name'' = Some (PList [''n3'']) \<and>
   decoded no_tables line_five_segments ''calling_name'' \<noteq>
     Some (PList (split_or_empty (py_strip (quoted_segment line_five_segments 5)))) \<and>
   decoded no_tables line_five_segments ''egress_call_id'' = Some (PStr ''E2'') \<and>
   decoded no_tables line_five_segments ''egress_call_id'' \<noteq>
     map_of (egress_leg no_tables (discard_without_sip
        (split_or_empty (py_strip (quoted_segment line_five_segments 3))))) ''egress_call_id''"
  by code_simp

subsection \<open>The values the type blocks assign\<close>

lemma decode_fields_attempt:
  "safe_get flds 0 [] = ''ATTEMPT'' \<Longrightarrow>
     decode_fields T no_prot flds parsed =
       Inr (attempt_block T no_prot flds (calling_name_of parsed) (common_block T flds parsed))"
  by (simp add: decode_fields_def Let_def)

lemma decode_fields_start:
  "safe_get flds 0 [] = ''START'' \<Longrightarrow>
     decode_fields T no_prot flds parsed =
       Inr (start_block T no_prot flds (calling_name_of parsed) (common_block T flds parsed))"
  by (simp add: decode_fields_def Let_def)

lemma decode_fields_stop:
  "safe_get flds 0 [] = ''STOP'' \<Longrightarrow>
     decode_fields T no_prot flds parsed =
       stop_block T no_prot flds (calling_name_of parsed) (common_block T flds parsed)"
  by (simp add: decode_fields_def Let_def split: sum.splits)

lemma attempt_block_values:
  "map_of (attempt_block T no_prot flds calling_name d) ''calling_number'' =
     Some (PStr (annotate_calling_number (safe_get flds 16 []) calling_name))"
  "map_of (attempt_block T no_prot flds calling_name d) ''called_number'' =
     Some (PStr (safe_get flds 17 []))"
  "map_of (attempt_block T no_prot flds calling_name d) ''route_label'' =
     Some (PStr (route_label_text (safe_get flds 25 [])))"
  "map_of (attempt_block T no_prot flds calling_name d) ''service_provider'' =
     Some (PStr (service_provider_text (safe_get flds 14 [])))"
  unfolding attempt_block_def Let_def
  by (simp_all add: lookup_simps del: dict_update_Cons)

lemma start_block_values:
  "map_of (start_block T no_prot flds calling_name d) ''calling_number'' =
     Some (PStr (annotate_calling_number (safe_get flds 15 []) calling_name))"
  "map_of (start_block T no_prot flds calling_name d) ''called_number'' =
     Some (PStr (safe_get flds 16 []))"
  "map_of (start_block T no_prot flds calling_name d) ''route_label'' =
     Some (PStr (route_label_text (safe_get flds 23 [])))"
  "map_of (start_block T no_prot flds calling_name d) ''service_provider'' =
     Some (PStr (service_provider_text (safe_get flds 12 [])))"
  unfolding start_block_def Let_def
  by (simp_all add: lookup_simps del: dict_update_Cons)


lemma stop_assignments_calling_number:
  "map_of (stop_assignments T no_prot flds calling_name du i e d) ''calling_number'' =
     Some (PStr (annotate_calling_number (safe_get flds 19 []) calling_name))"
  unfolding stop_assignments_def Let_def
  by (simp add: lookup_simps del: dict_update_Cons)

lemma stop_assignments_called_number:
  "map_of (stop_assignments T no_prot flds calling_name du i e d) ''called_number'' =
     Some (PStr (safe_get flds 20 []))"
  unfolding stop_assignments_def Let_def
  by (simp add: lookup_simps del: dict_update_Cons)

lemma stop_assignments_route_label:
  "map_of (stop_assignments T no_prot flds calling_name du i e d) ''route_label'' =
     Some (PStr (route_label_text (safe_get flds 28 [])))"
  unfolding stop_assignments_def Let_def
  by (simp add: lookup_simps del: dict_update_Cons)

lemma stop_assignments_service_provider:
  "map_of (stop_assignments T no_prot flds calling_name du i e d) ''service_provider'' =
     Some (PStr (service_provider_text (safe_get flds 17 [])))"
  unfolding stop_assignments_def Let_def
  by (simp add: lookup_simps del: dict_update_Cons)

lemma stop_assignments_duration:
  "map_of (stop_assignments T no_prot flds calling_name du i e d) ''duration'' =
     Some du"
  unfolding stop_assignments_def Let_def
  by (simp add: lookup_simps del: dict_update_Cons)

lemma stop_assignments_disconnect_reason:
  "map_of (stop_assignments T no_prot flds calling_name du i e d) ''disconnect_reason'' =
     Some (PStr (disconnect_reason_text T (safe_get flds 14 [])))"
  unfolding stop_assignments_def Let_def
  by (simp add: lookup_simps del: dict_update_Cons)

lemma stop_assignments_ingress_packets_lost:
  "map_of (stop_assignments T no_prot flds calling_name du i e d) ''ingress_packets_lost'' =
     Some (PStr i)"
  unfolding stop_assignments_def Let_def
  by (simp add: lookup_simps del: dict_update_Cons)

lemma stop_assignments_egress_packets_lost:
  "map_of (stop_assignments T no_prot flds calling_name du i e d) ''egress_packets_lost'' =
     Some (PStr e)"
  unfolding stop_assignments_def Let_def
  by (simp add: lookup_simps del: dict_update_Cons)

lemma common_block_lacks:
  assumes "k \<notin> common_keys"
  shows "map_of (common_block T flds parsed) k = None"
proof -
  from assms have "k \<notin> dom (map_of (common_block T flds parsed))"
    unfolding dom_common_block common_keys_def .
  then show ?thesis
    by blast
qed

subsection \<open>Field positions\<close>

text \<open>
  Claim C3, as the code has it. The decoder indexes its field list from 0, so the
  numbers of the offset table are 0-based indices; in 1-based positions they are one
  higher. An ATTEMPT record's calling number is read from position 17 and its called
  number from position 18; a STOP record's duration is read from position 14 and its
  disconnect-reason code from position 15.
\<close>

theorem attempt_and_stop_field_positions:
  "(field_at_position raw_cdr 1 = ''ATTEMPT'' \<longrightarrow>
      decoded T raw_cdr ''calling_number'' =
        Some (PStr (annotate_calling_number (field_at_position raw_cdr 17)
                      (calling_name_of (cdr_fields_parsed raw_cdr)))) \<and>
      decoded T raw_cdr ''called_number'' = Some (PStr (field_at_position raw_cdr 18))) \<and>
   (field_at_position raw_cdr 1 = ''STOP'' \<and> parse_cdr_to_dict T raw_cdr = Inr d \<longrightarrow>
      (\<exists>v. duration_value (field_at_position raw_cdr 14) = Inr v \<and>
           map_of d ''duration'' = Some v) \<and>
      map_of d ''disconnect_reason'' =
        Some (PStr (disconnect_reason_text T (field_at_position raw_cdr 15))))"
proof (intro conjI impI)
  assume "field_at_position raw_cdr 1 = ''ATTEMPT''"
  then have a: "safe_get (fields_of raw_cdr) 0 [] = ''ATTEMPT''"
    by (simp add: field_at_position_def)
  show "decoded T raw_cdr ''calling_number'' =
        Some (PStr (annotate_calling_number (field_at_position raw_cdr 17)
                      (calling_name_of (cdr_fields_parsed raw_cdr))))"
    by (simp add: decoded_def parse_cdr_to_dict_def decode_fields_attempt [OF a]
          attempt_block_values field_at_position_def)
  show "decoded T raw_cdr ''called_number'' = Some (PStr (field_at_position raw_cdr 18))"
    by (simp add: decoded_def parse_cdr_to_dict_def decode_fields_attempt [OF a]
          attempt_block_values field_at_position_def)
next
  assume "field_at_position raw_cdr 1 = ''STOP'' \<and> parse_cdr_to_dict T raw_cdr = Inr d"
  then have a: "safe_get (fields_of raw_cdr) 0 [] = ''STOP''"
    and b: "parse_cdr_to_dict T raw_cdr = Inr d"
    by (simp_all add: field_at_position_def)
  from b have "stop_block T (cdr_fields_without_prot_data raw_cdr) (fields_of raw_cdr)
      (calling_name_of (cdr_fields_parsed raw_cdr))
      (common_block T (fields_of raw_cdr) (cdr_fields_parsed raw_cdr)) = Inr d"
    unfolding parse_cdr_to_dict_def decode_fields_stop [OF a] .
  then show "\<exists>v. duration_value (field_at_position raw_cdr 14) = Inr v \<and>
           map_of d ''duration'' = Some v"
    "map_of d ''disconnect_reason'' =
        Some (PStr (disconnect_reason_text T (field_at_position raw_cdr 15)))"
    by (elim stop_block_InrD;
        simp add: stop_assignments_duration stop_assignments_disconnect_reason
          field_at_position_def)+
qed

theorem attempt_and_stop_field_positions_witness:
  "field_at_position line_attempt_positions 1 = ''ATTEMPT'' \<and>
   field_at_position line_attempt_positions 18 = ''p18'' \<and>
   decoded no_tables line_attempt_positions ''called_number'' = Some (PStr ''p18'') \<and>
   (\<exists>d. field_at_position line_stop_positions 1 = ''STOP'' \<and>
        parse_cdr_to_dict no_tables line_stop_positions = Inr d \<and>
        field_at_position line_stop_positions 14 = ''306'' \<and>
        (\<exists>v. duration_value ''306'' = Inr v \<and> map_of d ''duration'' = Some v) \<and>
        map_of d ''disconnect_reason'' =
          Some (PStr (disconnect_reason_text no_tables (field_at_position line_stop_positions 15))))"
proof -
  have a: "field_at_position line_attempt_positions 1 = ''ATTEMPT''"
    and a18: "field_at_position line_attempt_positions 18 = ''p18''"
    by code_simp+
  have s: "field_at_position line_stop_positions 1 = ''STOP''"
    and s14: "field_at_position line_stop_positions 14 = ''306''"
    by code_simp+
  have "\<not> isl (parse_cdr_to_dict no_tables line_stop_positions)"
    by code_simp
  then obtain d where d: "parse_cdr_to_dict no_tables line_stop_positions = Inr d"
    by (cases "parse_cdr_to_dict no_tables line_stop_positions") simp_all
  from attempt_and_stop_field_positions [of line_attempt_positions no_tables]
    attempt_and_stop_field_positions [of line_stop_positions no_tables d] a a18 s s14 d
  show ?thesis
    by auto
qed

text \<open>
  The claim as stated fails. On an ATTEMPT line with p16, p17 and p18 at the 1-based
  positions 16, 17 and 18, the calling number is p17, the field at position 17 and not
  the one at position 16, and the called number is p18, not the field at position 17.
\<close>

theorem attempt_positions_not_16_and_17:
  "decoded no_tables line_attempt_positions ''calling_number'' = Some (PStr ''p17'') \<and>
   decoded no_tables line_attempt_positions ''calling_number'' \<noteq>
     Some (PStr (field_at_position line_attempt_positions 16)) \<and>
   decoded no_tables line_attempt_positions ''called_number'' = Some (PStr ''p18'') \<and>
   decoded no_tables line_attempt_positions ''called_number'' \<noteq>
     Some (PStr (field_at_position line_attempt_positions 17))"
  by code_simp

subsection \<open>Keys present for every line\<close>

lemma ingress_leg_short:
  "length tokens < 19 \<Longrightarrow> map_of (ingress_leg T tokens) ''ing_device_name'' = Some (PStr ''N/A'')"
  by (simp add: ingress_leg_def parse_prot_data_side_short map_of_setdefault)

lemma egress_leg_short:
  "length tokens < 19 \<Longrightarrow> map_of (egress_leg T tokens) ''egr_device_name'' = Some (PStr ''N/A'')"
  by (simp add: egress_leg_def parse_prot_data_side_short map_of_setdefault)

text \<open>
  Claim C5, as the code has it. For every line on which the decoder returns, the result
  contains \<^verbatim>\<open>cdr_type\<close>, \<^verbatim>\<open>gateway_name\<close>, \<^verbatim>\<open>start_date\<close> and \<^verbatim>\<open>start_time\<close>,
  holding the fields at the 1-based positions 1, 2, 6 and 7 (the empty string, not
  \<^verbatim>\<open>"N/A"\<close>, when the line is too short), and both device-name keys, each with the
  value of its leg (\<^verbatim>\<open>"N/A"\<close> when the trace is absent or short). The keys
  \<^verbatim>\<open>calling_number\<close>, \<^verbatim>\<open>called_number\<close>, \<^verbatim>\<open>route_label\<close> and \<^verbatim>\<open>service_provider\<close>
  are present when the first field is START, ATTEMPT or STOP, and absent otherwise.
\<close>

theorem keys_present_for_every_line:
  assumes "parse_cdr_to_dict T raw_cdr = Inr d"
  shows
   "map_of d ''cdr_type'' = Some (PStr (field_at_position raw_cdr 1)) \<and>
    map_of d ''gateway_name'' = Some (PStr (field_at_position raw_cdr 2)) \<and>
    map_of d ''start_date'' = Some (PStr (field_at_position raw_cdr 6)) \<and>
    map_of d ''start_time'' = Some (PStr (field_at_position raw_cdr 7)) \<and>
    {''ing_device_name'', ''egr_device_name''} \<subseteq> dom (map_of d) \<and>
    (length (ingr_prot_data (fields_of raw_cdr) (cdr_fields_parsed raw_cdr)) < 19 \<longrightarrow>
       map_of d ''ing_device_name'' = Some (PStr ''N/A'')) \<and>
    (length (egr_prot_data (fields_of raw_cdr) (cdr_fields_parsed raw_cdr)) < 19 \<longrightarrow>
       map_of d ''egr_device_name'' = Some (PStr ''N/A'')) \<and>
    (field_at_position raw_cdr 1 \<in> {''START'', ''ATTEMPT'', ''STOP''} \<longrightarrow>
       {''calling_number'', ''called_number'', ''route_label'', ''service_provider''}
         \<subseteq> dom (map_of d)) \<and>
    (field_at_position raw_cdr 1 \<notin> {''START'', ''ATTEMPT'', ''STOP''} \<longrightarrow>
       {''calling_number'', ''called_number'', ''route_label'', ''service_provider''}
         \<inter> dom (map_of d) = {})"
proof -
  let ?f = "fields_of raw_cdr" and ?p = "cdr_fields_parsed raw_cdr"
  let ?n = "cdr_fields_without_prot_data raw_cdr"
  from assms have d: "decode_fields T ?n ?f ?p = Inr d"
    by (simp add: parse_cdr_to_dict_def)
  have keep: "map_of d k = map_of (common_block T ?f ?p) k" if "k \<in> common_keys" for k
    using decode_fields_keeps [OF d that] .
  have vals: "map_of d ''cdr_type'' = Some (PStr (field_at_position raw_cdr 1))"
    "map_of d ''gateway_name'' = Some (PStr (field_at_position raw_cdr 2))"
    "map_of d ''start_date'' = Some (PStr (field_at_position raw_cdr 6))"
    "map_of d ''start_time'' = Some (PStr (field_at_position raw_cdr 7))"
    using common_block_values [of T ?f ?p]
    by (simp_all add: keep common_keys_def field_at_position_def)
  have legs: "map_of d ''ing_device_name'' = Some (PStr ''N/A'')"
    if "length (ingr_prot_data ?f ?p) < 19"
    using decode_fields_legs(1) [OF d] ingress_leg_short [OF that, of T]
    by (simp add: agrees_on_def ingress_keys_def)
  have legs': "map_of d ''egr_device_name'' = Some (PStr ''N/A'')"
    if "length (egr_prot_data ?f ?p) < 19"
    using decode_fields_legs(2) [OF d] egress_leg_short [OF that, of T]
    by (simp add: agrees_on_def egress_keys_def)
  have dev: "{''ing_device_name'', ''egr_device_name''} \<subseteq> dom (map_of d)"
  proof -
    have "{''ing_device_name'', ''egr_device_name''} \<subseteq> dom (map_of (common_block T ?f ?p))"
      unfolding dom_common_block by simp
    then show ?thesis
      using keep [of "''ing_device_name''"] keep [of "''egr_device_name''"]
      by (auto simp: common_keys_def domIff)
  qed
  have rec: "{''calling_number'', ''called_number'', ''route_label'', ''service_provider''}
         \<subseteq> dom (map_of d)" if "field_at_position raw_cdr 1 \<in> {''START'', ''ATTEMPT'', ''STOP''}"
  proof -
    from that consider "safe_get ?f 0 [] = ''START''" | "safe_get ?f 0 [] = ''ATTEMPT''"
      | "safe_get ?f 0 [] = ''STOP''"
      by (auto simp: field_at_position_def)
    then show ?thesis
    proof cases
      case 1
      with d have "d = start_block T ?n ?f (calling_name_of ?p) (common_block T ?f ?p)"
        by (simp add: decode_fields_start)
      then show ?thesis
        by (simp add: domIff start_block_values)
    next
      case 2
      with d have "d = attempt_block T ?n ?f (calling_name_of ?p) (common_block T ?f ?p)"
        by (simp add: decode_fields_attempt)
      then show ?thesis
        by (simp add: domIff attempt_block_values)
    next
      case 3
      from d have "stop_block T ?n ?f (calling_name_of ?p) (common_block T ?f ?p) = Inr d"
        unfolding decode_fields_stop [OF 3] .
      then show ?thesis
        by (elim stop_block_InrD)
           (simp add: domIff stop_assignments_calling_number stop_assignments_called_number
              stop_assignments_route_label stop_assignments_service_provider)
    qed
  qed
  have unrec: "{''calling_number'', ''called_number'', ''route_label'', ''service_provider''}
         \<inter> dom (map_of d) = {}" if "field_at_position raw_cdr 1 \<notin> {''START'', ''ATTEMPT'', ''STOP''}"
  proof -
    from that have "safe_get ?f 0 [] \<noteq> ''ATTEMPT''" "safe_get ?f 0 [] \<noteq> ''STOP''"
      "safe_get ?f 0 [] \<noteq> ''START''"
      by (auto simp: field_at_position_def)
    with d have "d = common_block T ?f ?p"
      by (simp add: decode_fields_unrecognized)
    then show ?thesis
      unfolding \<open>d = common_block T ?f ?p\<close> dom_common_block by simp
  qed
  from vals legs legs' dev rec unrec show ?thesis
    by blast
qed

theorem keys_present_for_every_line_witness:
  "(\<exists>d. parse_cdr_to_dict no_tables line_attempt_positions = Inr d \<and>
        field_at_position line_attempt_positions 1 \<in> {''START'', ''ATTEMPT'', ''STOP''} \<and>
        map_of d ''cdr_type'' = Some (PStr ''ATTEMPT'') \<and>
        {''calling_number'', ''called_number'', ''route_label'', ''service_provider''}
          \<subseteq> dom (map_of d)) \<and>
   (\<exists>d. parse_cdr_to_dict no_tables ''HELLO,gw1'' = Inr d \<and>
        field_at_position ''HELLO,gw1'' 1 \<notin> {''START'', ''ATTEMPT'', ''STOP''} \<and>
        map_of d ''gateway_name'' = Some (PStr ''gw1'') \<and>
        map_of d ''start_date'' = Some (PStr []) \<and>
        {''calling_number'', ''called_number'', ''route_label'', ''service_provider''}
          \<inter> dom (map_of d) = {})"
proof -
  have a: "field_at_position line_attempt_positions 1 = ''ATTEMPT''"
    by code_simp
  then have "safe_get (fields_of line_attempt_positions) 0 [] \<noteq> ''STOP''"
    by (simp add: field_at_position_def)
  then obtain d1 where d1: "parse_cdr_to_dict no_tables line_attempt_positions = Inr d1"
    using decode_returns_unless_stop by blast
  have h: "field_at_position ''HELLO,gw1'' 1 = ''HELLO''"
    "field_at_position ''HELLO,gw1'' 2 = ''gw1''" "field_at_position ''HELLO,gw1'' 6 = []"
    by code_simp+
  then have "safe_get (fields_of ''HELLO,gw1'') 0 [] \<noteq> ''STOP''"
    by (simp add: field_at_position_def)
  then obtain d2 where d2: "parse_cdr_to_dict no_tables ''HELLO,gw1'' = Inr d2"
    using decode_returns_unless_stop by blast
  from keys_present_for_every_line [OF d1] keys_present_for_every_line [OF d2] a h d1 d2
  show ?thesis
    by auto
qed

text \<open>
  The claim as stated fails. On the empty line the decoder returns a dictionary without
  the keys \<^verbatim>\<open>calling_number\<close>, \<^verbatim>\<open>called_number\<close>, \<^verbatim>\<open>route_label\<close> and
  \<^verbatim>\<open>service_provider\<close>, and the four positional keys hold the empty string, not
  \<^verbatim>\<open>"N/A"\<close>.
\<close>

theorem empty_line_lacks_number_keys:
  "\<not> isl (parse_cdr_to_dict no_tables []) \<and>
   decoded no_tables [] ''calling_number'' = None \<and>
   decoded no_tables [] ''called_number'' = None \<and>
   decoded no_tables [] ''route_label'' = None \<and>
   decoded no_tables [] ''service_provider'' = None \<and>
   decoded no_tables [] ''cdr_type'' = Some (PStr []) \<and>
   decoded no_tables [] ''gateway_name'' = Some (PStr []) \<and>
   decoded no_tables [] ''start_date'' = Some (PStr []) \<and>
   decoded no_tables [] ''start_time'' = Some (PStr [])"
  by code_simp

subsection \<open>The calling-number annotation\<close>

lemma annotate_without_name: "annotate_calling_number number [] = number"
  by (simp add: annotate_calling_number_def)

text \<open>
  Claim C7 does not hold of the code. The calling name is a list of tokens, and the
  f-string renders the list, not the name: on an ATTEMPT line with the calling number
  5551234 and the calling name Bob the decoded calling number is
  \<^verbatim>\<open>5551234 (['Bob'])\<close> where the claim has \<^verbatim>\<open>5551234 (Bob)\<close>.
\<close>

theorem calling_number_annotation_is_list_repr:
  "calling_name_of (cdr_fields_parsed line_attempt_named) = [''Bob''] \<and>
   decoded no_tables line_attempt_named ''calling_number'' =
     Some (PStr (''5551234 (['' @ [squote] @ ''Bob'' @ [squote] @ ''])'')) \<and>
   decoded no_tables line_attempt_named ''calling_number'' \<noteq> Some (PStr ''5551234 (Bob)'')"
  by code_simp

subsection \<open>Numbers too large for a float\<close>

lemma huge_count_value: "py_int huge_count = Some (10 ^ 309)"
  by code_simp

lemma huge_duration_overflows: "duration_value huge_count = Inl OverflowError"
  by (simp add: duration_value_def huge_count_value int_to_float_def)

lemma huge_loss_overflows: "packets_lost_value ''1'' huge_count = Inl OverflowError"
proof -
  have "py_int ''1'' = Some 1"
    by code_simp
  then show ?thesis
    by (simp add: packets_lost_value_def huge_count_value true_div_def)
qed

lemma huge_duration_fields:
  "safe_get (fields_of line_stop_huge_duration) 13 [] = huge_count \<and>
   safe_get (fields_of line_stop_huge_duration) 0 [] = ''STOP''"
  by code_simp

lemma huge_loss_fields:
  "safe_get (fields_of line_stop_huge_loss) 41 [] = ''1'' \<and>
   safe_get (cdr_fields_without_prot_data line_stop_huge_loss) 64 [] = huge_count \<and>
   safe_get (fields_of line_stop_huge_loss) 13 [] = [] \<and>
   safe_get (fields_of line_stop_huge_loss) 0 [] = ''STOP''"
  by code_simp

lemma stop_block_duration_overflow:
  "duration_value (safe_get flds 13 []) = Inl e \<Longrightarrow>
     stop_block T no_prot flds calling_name d = Inl e"
  by (simp add: stop_block_def)

lemma stop_block_ingress_loss_overflow:
  "duration_value (safe_get flds 13 []) = Inr du \<Longrightarrow>
   packets_lost_value (safe_get flds 41 []) (safe_get no_prot 64 []) = Inl e \<Longrightarrow>
     stop_block T no_prot flds calling_name d = Inl e"
  by (simp add: stop_block_def)

lemma huge_duration_line_raises:
  "parse_cdr_to_dict T line_stop_huge_duration = Inl OverflowError"
proof -
  have f: "safe_get (fields_of line_stop_huge_duration) 0 [] = ''STOP''"
    and g: "safe_get (fields_of line_stop_huge_duration) 13 [] = huge_count"
    using huge_duration_fields by blast+
  show ?thesis
    unfolding parse_cdr_to_dict_def decode_fields_stop [OF f]
    by (rule stop_block_duration_overflow) (simp only: g huge_duration_overflows)
qed

text \<open>
  Claim C1 does not hold of the code. The STOP line whose duration field is the numeral
  of \<open>10 ^ 309\<close> makes \<^verbatim>\<open>int(duration_raw) * 0.01\<close> raise \<^verbatim>\<open>OverflowError\<close>; the
  except clause catches \<^verbatim>\<open>TypeError\<close> and \<^verbatim>\<open>ValueError\<close> only, so the exception
  leaves \<^verbatim>\<open>parse_cdr_to_dict\<close>.
\<close>

theorem huge_duration_raises_overflow_error:
  "parse_cdr_to_dict no_tables line_stop_huge_duration = Inl OverflowError"
  by (rule huge_duration_line_raises)

text \<open>
  Claim C9 does not hold of the code on that line: its duration field is an
  integer-valued string, yet the decoder produces no duration at all, neither the scaled
  number nor \<^verbatim>\<open>"N/A"\<close>. This is the defect of claim C1, seen at the duration.
\<close>

theorem huge_duration_has_no_decoded_value:
  "field_at_position line_stop_huge_duration 14 = huge_count \<and>
   py_int huge_count = Some (10 ^ 309) \<and>
   duration_value (field_at_position line_stop_huge_duration 14) = Inl OverflowError \<and>
   decoded no_tables line_stop_huge_duration ''duration'' = None"
  using huge_duration_fields huge_duration_overflows huge_count_value
    huge_duration_line_raises [of no_tables]
  by (simp add: decoded_def field_at_position_def)

text \<open>
  Claim C8 does not hold of the code. On the STOP line with the received count 1 and
  the lost count \<open>10 ^ 309\<close> both counts parse, the received count is positive and the
  lost count is not negative, yet nothing is rendered: the division \<^verbatim>\<open>lost / rcvd\<close>
  raises \<^verbatim>\<open>OverflowError\<close>, which the except clause does not catch. The slip is the
  one of claim C1, in the second \<^verbatim>\<open>try\<close> statement.
\<close>

theorem huge_packet_loss_raises_overflow_error:
  "py_int ''1'' = Some 1 \<and> py_int huge_count = Some (10 ^ 309) \<and>
   packets_lost_value ''1'' huge_count = Inl OverflowError \<and>
   parse_cdr_to_dict no_tables line_stop_huge_loss = Inl OverflowError"
proof -
  have f: "safe_get (fields_of line_stop_huge_loss) 0 [] = ''STOP''"
    and g: "safe_get (fields_of line_stop_huge_loss) 13 [] = []"
    and h: "safe_get (fields_of line_stop_huge_loss) 41 [] = ''1''"
    and i: "safe_get (cdr_fields_without_prot_data line_stop_huge_loss) 64 [] = huge_count"
    using huge_loss_fields by blast+
  have du: "duration_value [] = Inr (PStr ''N/A'')"
    by code_simp
  have one: "py_int ''1'' = Some 1"
    by code_simp
  have "parse_cdr_to_dict no_tables line_stop_huge_loss = Inl OverflowError"
    unfolding parse_cdr_to_dict_def decode_fields_stop [OF f]
    by (rule stop_block_ingress_loss_overflow [where du = "PStr ''N/A''"])
       (simp_all only: g h i du huge_loss_overflows)
  with huge_loss_overflows huge_count_value one show ?thesis
    by blast
qed

subsection \<open>The conversions in range\<close>

text \<open>
  Away from the overflow the two conversions behave as the specification describes
  them: the duration 306 decodes to the double nearest to 3.06 and a non-numeric
  duration to \<^verbatim>\<open>"N/A"\<close>; 129 packets lost of 20640 received render as
  \<^verbatim>\<open>129 (0.6%)\<close>, none lost of none received as \<^verbatim>\<open>0\<close>, counts that do not parse
  leave the raw value, and the division is never one by zero.
\<close>

lemma duration_306: "duration_value ''306'' = Inr (PFloat (Finite (dbl_round (306 / 100))))"
  by code_simp

lemma duration_not_numeric: "py_int raw = None \<Longrightarrow> duration_value raw = Inr (PStr ''N/A'')"
  by (simp add: duration_value_def)

lemma duration_abc: "duration_value ''abc'' = Inr (PStr ''N/A'')"
  by code_simp

lemma packets_lost_129_of_20640: "packets_lost_value ''20640'' ''129'' = Inr ''129 (0.6%)''"
  by code_simp

lemma packets_lost_0_of_0: "packets_lost_value ''0'' ''0'' = Inr ''0''"
  by code_simp

lemma packets_lost_not_numeric:
  "py_int rcvd_raw = None \<or> py_int lost_raw = None \<Longrightarrow>
     packets_lost_value rcvd_raw lost_raw = Inr lost_raw"
  by (auto simp: packets_lost_value_def split: option.splits)

lemma packets_lost_no_zero_division:
  "packets_lost_value rcvd_raw lost_raw \<noteq> Inl ZeroDivisionError"
  by (auto simp: packets_lost_value_def true_div_def split: option.splits)

lemma duration_no_zero_division: "duration_value raw \<noteq> Inl ZeroDivisionError"
  by (auto simp: duration_value_def int_to_float_def split: option.splits)

lemma decode_no_zero_division: "parse_cdr_to_dict T raw_cdr \<noteq> Inl ZeroDivisionError"
  using duration_no_zero_division packets_lost_no_zero_division
  by (auto simp: parse_cdr_to_dict_def decode_fields_def stop_block_def Let_def
        split: sum.splits)

subsection \<open>The exponent of a double\<close>

text \<open>
  \<open>floor_log2\<close> does compute the binary exponent that \<open>dbl_round\<close> relies on.
\<close>

lemma bitlen_pos_bounds:
  assumes "0 < (a::int)"
  shows "2 powi (bitlen a - 1) \<le> (of_int a :: rat)" "(of_int a :: rat) < 2 powi (bitlen a)"
proof -
  from assms have b: "2 ^ nat (bitlen a - 1) \<le> a" "a < 2 ^ nat (bitlen a)"
    using bitlen_bounds [of a] by blast+
  have "bitlen a \<noteq> 0"
    using assms by (simp add: bitlen_eq_zero_iff)
  then have "0 < bitlen a"
    using bitlen_nonneg [of a] by linarith
  note b = b this
  from b(1) have "(of_int (2 ^ nat (bitlen a - 1)) :: rat) \<le> of_int a"
    by (simp only: of_int_le_iff)
  then show "2 powi (bitlen a - 1) \<le> (of_int a :: rat)"
    using b(3) by (simp add: power_int_def)
  from b(2) have "(of_int a :: rat) < of_int (2 ^ nat (bitlen a))"
    by (simp only: of_int_less_iff)
  then show "(of_int a :: rat) < 2 powi (bitlen a)"
    using b(3) by (simp add: power_int_def)
qed

lemma floor_log2_bounds:
  assumes "0 < q"
  shows "2 powi (floor_log2 q) \<le> q \<and> q < 2 powi (floor_log2 q + 1)"
proof -
  obtain a b where ab: "quotient_of q = (a, b)"
    by (cases "quotient_of q")
  then have b: "0 < b" and q: "q = of_int a / of_int b"
    using quotient_of_denom_pos quotient_of_div by blast+
  with assms have a: "0 < a"
    by (simp add: zero_less_divide_iff)
  let ?d = "bitlen a - bitlen b"
  have lo: "2 powi (?d - 1) < q"
  proof -
    have "2 powi (bitlen a - 1) \<le> (of_int a :: rat)" "(of_int b :: rat) < 2 powi (bitlen b)"
      using bitlen_pos_bounds a b by blast+
    then have "2 powi (bitlen a - 1) / 2 powi (bitlen b) < (of_int a :: rat) / of_int b"
      using a b by (intro frac_less2) auto
    then show ?thesis
      by (simp add: q power_int_diff)
  qed
  have hi: "q < 2 powi (?d + 1)"
  proof -
    have "(of_int a :: rat) < 2 powi (bitlen a)" "2 powi (bitlen b - 1) \<le> (of_int b :: rat)"
      using bitlen_pos_bounds a b by blast+
    then have "(of_int a :: rat) / of_int b < 2 powi (bitlen a) / 2 powi (bitlen b - 1)"
      using a b by (intro frac_less) auto
    also have "\<dots> = 2 powi (?d + 1)"
      by (simp add: power_int_diff power_int_add field_simps)
    finally show ?thesis
      by (simp add: q)
  qed
  show ?thesis
    using lo hi by (auto simp: floor_log2_def ab Let_def not_le less_imp_le)
qed

end
